theory Spec2Isabelle
  imports Complex_Main
begin

section \<open>JavaScript numbers: binary64 arithmetic\<close>

text \<open>
  The pricing code computes with JavaScript numbers, IEEE 754 binary64 values.  A finite
  number is a \<^typ>\<open>real\<close> that is a binary64 value; the two infinities and \<open>NaN\<close> are
  values of their own.  Two more values can reach the arithmetic of \<open>calculatePrice\<close>:
  \<open>undefined\<close> (a key that a lookup does not find) and a value inherited from
  \<open>Object.prototype\<close> (a function such as \<open>constructor\<close>), which a lookup on a plain
  object returns for an inherited property name.  The sign of zero is not modelled: it
  shows in none of the results (\<open>JSON.stringify(-0)\<close> is \<open>"0"\<close>).
\<close>

datatype jsval = Num real | PosInf | NegInf | NaN | Undefined | Inherited

text \<open>
  The finite binary64 values: a significand of at most 53 bits times a power of two,
  the exponent of the last bit between \<open>-1074\<close> and \<open>971\<close>.
\<close>

definition binary64 :: "real set" where
  "binary64 =
     {x. \<exists>m e. x = of_int m * 2 powi e \<and> \<bar>m\<bar> < 2 ^ 53 \<and> - 1074 \<le> e \<and> e \<le> 971}"

text \<open>The binary exponent of a positive real: \<open>2 ^ expo a \<le> a < 2 ^ (expo a + 1)\<close>.\<close>

definition expo :: "real \<Rightarrow> int" where
  "expo a = \<lfloor>log 2 a\<rfloor>"

text \<open>Rounding a real to the nearest integer, a tie going to the even one.\<close>

definition rne :: "real \<Rightarrow> int" where
  "rne r =
     (if r - of_int \<lfloor>r\<rfloor> < 1 / 2 then \<lfloor>r\<rfloor>
      else if 1 / 2 < r - of_int \<lfloor>r\<rfloor> then \<lfloor>r\<rfloor> + 1
      else if even \<lfloor>r\<rfloor> then \<lfloor>r\<rfloor> else \<lfloor>r\<rfloor> + 1)"

text \<open>
  The exponent of the last bit of the binary64 values around \<open>x\<close>: 52 below the
  exponent of \<open>x\<close>, and \<open>-1074\<close> for the subnormal numbers.
\<close>

definition quantum :: "real \<Rightarrow> int" where
  "quantum x = max (expo \<bar>x\<bar>) (- 1022) - 52"

text \<open>
  \<open>fl x\<close> is the binary64 result of an operation whose exact result is \<open>x\<close>: the
  nearest binary64 value, ties to even, and an infinity when that rounding reaches
  \<open>2 ^ 1024\<close>.
\<close>

definition fl :: "real \<Rightarrow> jsval" where
  "fl x =
     (if x = 0 then Num 0
      else if (2::real) powi 1024 \<le> of_int (rne (\<bar>x\<bar> / 2 powi quantum x)) * 2 powi quantum x
      then (if 0 < x then PosInf else NegInf)
      else Num (sgn x * (of_int (rne (\<bar>x\<bar> / 2 powi quantum x)) * 2 powi quantum x)))"

text \<open>
  The binary operators \<open>-\<close>, \<open>+\<close>, \<open>*\<close> and \<open>/\<close>.  An operand that is \<open>NaN\<close>,
  \<open>undefined\<close> or an inherited function or object makes the result \<open>NaN\<close>.  In
  \<open>calculatePrice\<close> the left operand of every \<open>+\<close> is the result of a subtraction or of
  \<open>Math.max\<close>, a number, and the right one is a number or \<open>undefined\<close>, so \<open>+\<close> is the
  numeric addition there.
\<close>

fun js_add :: "jsval \<Rightarrow> jsval \<Rightarrow> jsval" where
  "js_add (Num x) (Num y) = fl (x + y)"
| "js_add (Num x) PosInf = PosInf"
| "js_add (Num x) NegInf = NegInf"
| "js_add PosInf (Num y) = PosInf"
| "js_add PosInf PosInf = PosInf"
| "js_add NegInf (Num y) = NegInf"
| "js_add NegInf NegInf = NegInf"
| "js_add _ _ = NaN"

fun js_sub :: "jsval \<Rightarrow> jsval \<Rightarrow> jsval" where
  "js_sub (Num x) (Num y) = fl (x - y)"
| "js_sub (Num x) PosInf = NegInf"
| "js_sub (Num x) NegInf = PosInf"
| "js_sub PosInf (Num y) = PosInf"
| "js_sub PosInf NegInf = PosInf"
| "js_sub NegInf (Num y) = NegInf"
| "js_sub NegInf PosInf = NegInf"
| "js_sub _ _ = NaN"

fun js_mul :: "jsval \<Rightarrow> jsval \<Rightarrow> jsval" where
  "js_mul (Num x) (Num y) = fl (x * y)"
| "js_mul (Num x) PosInf = (if x = 0 then NaN else if 0 < x then PosInf else NegInf)"
| "js_mul (Num x) NegInf = (if x = 0 then NaN else if 0 < x then NegInf else PosInf)"
| "js_mul PosInf (Num y) = (if y = 0 then NaN else if 0 < y then PosInf else NegInf)"
| "js_mul NegInf (Num y) = (if y = 0 then NaN else if 0 < y then NegInf else PosInf)"
| "js_mul PosInf PosInf = PosInf"
| "js_mul PosInf NegInf = NegInf"
| "js_mul NegInf PosInf = NegInf"
| "js_mul NegInf NegInf = PosInf"
| "js_mul _ _ = NaN"

fun js_div :: "jsval \<Rightarrow> jsval \<Rightarrow> jsval" where
  "js_div (Num x) (Num y) =
     (if y = 0 then (if x = 0 then NaN else if 0 < x then PosInf else NegInf)
      else fl (x / y))"
| "js_div (Num x) PosInf = Num 0"
| "js_div (Num x) NegInf = Num 0"
| "js_div PosInf (Num y) = (if 0 \<le> y then PosInf else NegInf)"
| "js_div NegInf (Num y) = (if 0 \<le> y then NegInf else PosInf)"
| "js_div _ _ = NaN"

text \<open>
  \<open>Math.max(0, v)\<close>, \<open>Math.round(v)\<close> and \<open>Math.floor(v)\<close>.  All three are exact on a
  number: the result is a binary64 value again.  \<open>Math.round\<close> rounds a half up, as
  \<^const>\<open>round\<close> does.
\<close>

fun Math_max0 :: "jsval \<Rightarrow> jsval" where
  "Math_max0 (Num x) = Num (max 0 x)"
| "Math_max0 PosInf = PosInf"
| "Math_max0 NegInf = Num 0"
| "Math_max0 _ = NaN"

fun Math_round :: "jsval \<Rightarrow> jsval" where
  "Math_round (Num x) = Num (of_int (round x))"
| "Math_round PosInf = PosInf"
| "Math_round NegInf = NegInf"
| "Math_round _ = NaN"

fun Math_floor :: "jsval \<Rightarrow> jsval" where
  "Math_floor (Num x) = Num (of_int \<lfloor>x\<rfloor>)"
| "Math_floor PosInf = PosInf"
| "Math_floor NegInf = NegInf"
| "Math_floor _ = NaN"


section \<open>Objects and lookups\<close>

text \<open>The property names every plain object inherits from \<open>Object.prototype\<close>.\<close>

definition object_prototype_names :: "string list" where
  "object_prototype_names =
     [''constructor'', ''__defineGetter__'', ''__defineSetter__'', ''hasOwnProperty'',
      ''__lookupGetter__'', ''__lookupSetter__'', ''isPrototypeOf'',
      ''propertyIsEnumerable'', ''toString'', ''valueOf'', ''__proto__'',
      ''toLocaleString'']"

text \<open>A plain object whose own properties are numbers (\<open>Record<string, number>\<close>).\<close>

type_synonym number_record = "string \<rightharpoonup> real"

text \<open>\<open>key in obj\<close>: true for an own property and for an inherited one.\<close>

definition js_in :: "string \<Rightarrow> number_record \<Rightarrow> bool" where
  "js_in k obj = (k \<in> dom obj \<or> k \<in> set object_prototype_names)"

text \<open>\<open>obj[key]\<close>: the own property, else the inherited one, else \<open>undefined\<close>.\<close>

definition js_get :: "number_record \<Rightarrow> string \<Rightarrow> jsval" where
  "js_get obj k =
     (case obj k of
        Some v \<Rightarrow> Num v
      | None \<Rightarrow> if k \<in> set object_prototype_names then Inherited else Undefined)"

text \<open>\<open>a ?? b\<close> on a value that may be \<open>undefined\<close>, and on an optional field.\<close>

definition nullish :: "jsval \<Rightarrow> jsval \<Rightarrow> jsval" where
  "nullish a b = (if a = Undefined then b else a)"

definition or_default :: "'a option \<Rightarrow> 'a \<Rightarrow> 'a" where
  "or_default a b = (case a of Some v \<Rightarrow> v | None \<Rightarrow> b)"


section \<open>Order configuration and rule set\<close>

datatype product_type = dimensioned | table_only | all_in_one

datatype delivery_days = D7 | D30 | D45 | D60

datatype advance_payment = adv_none | adv_50 | adv_100

text \<open>\<open>String(input.delivery_days)\<close>.\<close>

fun String_days :: "delivery_days \<Rightarrow> string" where
  "String_days D7 = ''7''"
| "String_days D30 = ''30''"
| "String_days D45 = ''45''"
| "String_days D60 = ''60''"

text \<open>
  \<open>PriceInput\<close>, the output type of \<open>PriceInputSchema\<close>: the three enumerations are
  closed, \<open>quantity\<close> and \<open>advance_payment\<close> have been defaulted, every other field is
  optional.
\<close>

record PriceInput =
  product_type :: product_type
  dimension :: "string option"
  quantity :: real
  delivery_days :: delivery_days
  base_override_eur :: "real option"
  startup_discount_eur :: "real option"
  first_order_discount_eur :: "real option"
  delivery_surcharge_override :: "number_record option"
  advance_payment :: advance_payment
  two_pcs_line_discount_eur :: "real option"
  advance_payment_discount_eur :: "real option"
  custom_unit_adjust_eur :: "real option"
  custom_line_adjust_eur :: "real option"

text \<open>The range check of \<open>PriceInputSchema\<close> on \<open>quantity\<close>: \<open>.min(1).max(500)\<close>.\<close>

definition quantity_in_range :: "PriceInput \<Rightarrow> bool" where
  "quantity_in_range input = (1 \<le> quantity input \<and> quantity input \<le> 500)"

text \<open>
  \<open>PricingConfig\<close>, the output type of \<open>PricingSchema\<close>.  The two \<open>z.object\<close> tables have
  exactly their three required keys, so they are total on the enumeration.  The two
  \<open>z.record\<close> tables are plain objects; \<open>delivery_surcharge_eur\<close> has its keys among
  \<open>"7"\<close>, \<open>"30"\<close>, \<open>"45"\<close>, \<open>"60"\<close>, and nothing below assumes that all four are
  present.  The fields that share a name with a field of \<open>PriceInput\<close> carry the prefix
  \<open>cfg_\<close>.
\<close>

record PricingConfig =
  dimensionBaseEUR :: number_record
  base_table_only :: real
  base_all_in_one :: real
  cfg_startup_discount_eur :: real
  first_order_discount_by_type :: "product_type \<Rightarrow> real"
  delivery_surcharge_eur :: number_record
  cfg_advance_payment_discount_eur :: "advance_payment \<Rightarrow> real"
  cfg_two_pcs_line_discount_eur :: real


section \<open>The rule set loader (config.ts)\<close>

text \<open>
  The loader reads a file, strips a byte-order mark, parses JSON and validates the result
  with \<open>PricingSchema\<close>.  The file system, the JSON parser and the validator are taken as
  they answer: \<open>file_content\<close> is \<open>None\<close> when \<open>fs.readFileSync\<close> throws,
  \<open>JSON_parse\<close> is \<open>None\<close> when \<open>JSON.parse\<close> throws, \<open>safeParse\<close> is \<open>None\<close> when
  validation fails.  A text is a list of UTF-16 code units.
\<close>

record 'j config_source =
  file_content :: "nat list option"
  JSON_parse :: "nat list \<Rightarrow> 'j option"
  safeParse :: "'j \<Rightarrow> PricingConfig option"

datatype config_error = ReadFailed | JsonSyntaxError | InvalidPricingConfig

text \<open>\<open>if (raw.charCodeAt(0) === 0xFEFF) { raw = raw.slice(1); }\<close>\<close>

fun strip_bom :: "nat list \<Rightarrow> nat list" where
  "strip_bom [] = []"
| "strip_bom (c # cs) = (if c = 0xFEFF then cs else c # cs)"

text \<open>
  The module variable \<open>cached\<close> is passed in and returned.  A call returns its result, or
  the error it throws, and the new value of \<open>cached\<close>.
\<close>

definition getPricingConfig ::
  "'j config_source \<Rightarrow> PricingConfig option \<Rightarrow> (config_error + PricingConfig) \<times> PricingConfig option"
where
  "getPricingConfig src cached =
     (case cached of
        Some cfg \<Rightarrow> (Inr cfg, cached)
      | None \<Rightarrow>
          (case file_content src of
             None \<Rightarrow> (Inl ReadFailed, cached)
           | Some raw \<Rightarrow>
               (case JSON_parse src (strip_bom raw) of
                  None \<Rightarrow> (Inl JsonSyntaxError, cached)
                | Some json \<Rightarrow>
                    (case safeParse src json of
                       None \<Rightarrow> (Inl InvalidPricingConfig, cached)
                     | Some cfg \<Rightarrow> (Inr cfg, Some cfg)))))"

text \<open>\<open>cached = null; return getPricingConfig();\<close>\<close>

definition reloadPricingConfig ::
  "'j config_source \<Rightarrow> PricingConfig option \<Rightarrow> (config_error + PricingConfig) \<times> PricingConfig option"
where
  "reloadPricingConfig src cached = getPricingConfig src None"


section \<open>The pricing engine (price.ts)\<close>

record Adjustments =
  startup_discount :: real
  first_order_discount :: real
  delivery_surcharge :: jsval
  advance_payment_discount :: real
  two_pcs_line_discount_total :: jsval
  custom_unit_adjust :: real
  custom_line_adjust :: real

record PriceBreakdown =
  base :: jsval
  adjustments :: Adjustments
  unit :: jsval
  subtotal :: jsval
  total :: jsval

datatype price_error =
  MissingOrInvalidDimension
| ConfigFailure config_error

text \<open>
  The base price: an override wins; a dimensioned product looks its dimension up, and
  throws when \<open>!input.dimension\<close> holds (the dimension is absent or empty) or, that
  failing, when the \<open>in\<close> test fails.
\<close>

definition resolve_base :: "PricingConfig \<Rightarrow> PriceInput \<Rightarrow> price_error + jsval" where
  "resolve_base cfg input =
     (case base_override_eur input of
        Some b \<Rightarrow> Inr (Num b)
      | None \<Rightarrow>
          (case product_type input of
             dimensioned \<Rightarrow>
               (case dimension input of
                  None \<Rightarrow> Inl MissingOrInvalidDimension
                | Some d \<Rightarrow>
                    if d = [] then Inl MissingOrInvalidDimension
                    else if js_in d (dimensionBaseEUR cfg)
                    then Inr (js_get (dimensionBaseEUR cfg) d)
                    else Inl MissingOrInvalidDimension)
           | table_only \<Rightarrow> Inr (Num (base_table_only cfg))
           | all_in_one \<Rightarrow> Inr (Num (base_all_in_one cfg))))"

text \<open>
  The unrounded per-unit price, \<open>unit_before_qty\<close>:
  \<open>Math.max(0, base - startup - firstOrder + delivery - advance) + customUnit\<close>,
  the operators applied from left to right.
\<close>

definition unit_before_qty ::
  "jsval \<Rightarrow> real \<Rightarrow> real \<Rightarrow> jsval \<Rightarrow> real \<Rightarrow> real \<Rightarrow> jsval" where
  "unit_before_qty b startup firstOrder delivery advance custom_unit =
     js_add
       (Math_max0
          (js_sub (js_add (js_sub (js_sub b (Num startup)) (Num firstOrder)) delivery)
             (Num advance)))
       (Num custom_unit)"

text \<open>The body of \<open>calculatePrice\<close> once the rule set \<open>cfg\<close> is at hand.\<close>

definition price_with :: "PricingConfig \<Rightarrow> PriceInput \<Rightarrow> price_error + PriceBreakdown" where
  "price_with cfg input =
     (case resolve_base cfg input of
        Inl e \<Rightarrow> Inl e
      | Inr b \<Rightarrow>
          (let startup = or_default (startup_discount_eur input) (cfg_startup_discount_eur cfg);
               firstOrder = or_default (first_order_discount_eur input)
                              (first_order_discount_by_type cfg (product_type input));
               overrideMap = or_default (delivery_surcharge_override input) Map.empty;
               delivery = nullish (js_get overrideMap (String_days (delivery_days input)))
                            (js_get (delivery_surcharge_eur cfg) (String_days (delivery_days input)));
               advance = or_default (advance_payment_discount_eur input)
                           (cfg_advance_payment_discount_eur cfg (advance_payment input));
               custom_unit = or_default (custom_unit_adjust_eur input) 0;
               custom_line = or_default (custom_line_adjust_eur input) 0;
               ubq = unit_before_qty b startup firstOrder delivery advance custom_unit;
               qty = quantity input;
               subtotalBeforeLineAdj = js_mul ubq (Num qty);
               pairs = Math_floor (js_div (Num qty) (Num 2));
               twoPcsLineDiscount =
                 (if 2 \<le> qty
                  then js_mul
                         (Num (or_default (two_pcs_line_discount_eur input)
                                 (cfg_two_pcs_line_discount_eur cfg)))
                         pairs
                  else Num 0);
               tot = Math_max0 (Math_round
                       (js_add (js_sub subtotalBeforeLineAdj twoPcsLineDiscount)
                          (Num custom_line)))
           in Inr \<lparr>base = b,
                   adjustments = \<lparr>startup_discount = startup,
                                   first_order_discount = firstOrder,
                                   delivery_surcharge = delivery,
                                   advance_payment_discount = advance,
                                   two_pcs_line_discount_total = twoPcsLineDiscount,
                                   custom_unit_adjust = custom_unit,
                                   custom_line_adjust = custom_line\<rparr>,
                   unit = Math_round ubq,
                   subtotal = Math_round subtotalBeforeLineAdj,
                   total = tot\<rparr>))"

text \<open>
  \<open>calculatePrice\<close>: it first asks the loader for the rule set, which may load it and
  may throw, then prices the order.
\<close>

definition calculatePrice ::
  "'j config_source \<Rightarrow> PricingConfig option \<Rightarrow> PriceInput
     \<Rightarrow> (price_error + PriceBreakdown) \<times> PricingConfig option"
where
  "calculatePrice src cached input =
     (case getPricingConfig src cached of
        (Inl e, cached') \<Rightarrow> (Inl (ConfigFailure e), cached')
      | (Inr cfg, cached') \<Rightarrow> (price_with cfg input, cached'))"


section \<open>Override authorization and input validation (app.ts, price.ts)\<close>

text \<open>The eight fields that \<open>sanitizeOverrides\<close> destructures away.\<close>

definition override_fields :: "string list" where
  "override_fields =
     [''base_override_eur'', ''startup_discount_eur'', ''first_order_discount_eur'',
      ''delivery_surcharge_override'', ''two_pcs_line_discount_eur'',
      ''advance_payment_discount_eur'', ''custom_unit_adjust_eur'',
      ''custom_line_adjust_eur'']"

text \<open>
  \<open>sanitizeOverrides(input, allow)\<close>.  The input is an object, given by its own
  enumerable properties in order; the rest pattern \<open>...safe\<close> collects every property
  that the destructuring does not name.  The function is private to app.ts and has one
  call site, on the object that \<open>PriceInputSchema.safeParse\<close> returns.
\<close>

definition sanitizeOverrides :: "(string \<times> 'v) list \<Rightarrow> bool \<Rightarrow> (string \<times> 'v) list" where
  "sanitizeOverrides input allow =
     (if allow then input
      else filter (\<lambda>(k, v). k \<notin> set override_fields) input)"

text \<open>A value of a JSON request body.\<close>

datatype json =
  JNull
| JBool bool
| JNum real
| JStr string
| JArr "json list"
| JObj "(string \<times> json) list"

datatype zod_issue =
  invalid_type
| too_small
| too_big
| invalid_enum_value
| invalid_union

text \<open>
  A schema of the validation library, applied to the value found under a key (\<open>None\<close>
  when the key is absent): an issue, or the parsed value (\<open>None\<close> when the output has no
  such key).
\<close>

type_synonym schema = "json option \<Rightarrow> zod_issue + json option"

text \<open>
  The schema of the \<open>quantity\<close> key, \<open>z.number().min(1).max(500).default(1)\<close>, on the
  value found under the key (\<open>None\<close> when the key is absent).
\<close>

definition quantity_schema :: "json option \<Rightarrow> zod_issue + real" where
  "quantity_schema raw =
     (case raw of
        None \<Rightarrow> Inr 1
      | Some (JNum q) \<Rightarrow>
          if q < 1 then Inl too_small else if 500 < q then Inl too_big else Inr q
      | Some _ \<Rightarrow> Inl invalid_type)"

text \<open>\<open>z.enum([...])\<close>, \<open>z.string()\<close>, \<open>z.number()\<close>, \<open>z.record(z.string(), z.number())\<close>,
  the union of the four literals of \<open>delivery_days\<close>, \<open>.optional()\<close> and \<open>.default(d)\<close>.\<close>

definition z_enum :: "string list \<Rightarrow> schema" where
  "z_enum values raw =
     (case raw of
        Some (JStr s) \<Rightarrow> if s \<in> set values then Inr (Some (JStr s)) else Inl invalid_enum_value
      | _ \<Rightarrow> Inl invalid_type)"

definition z_string :: schema where
  "z_string raw = (case raw of Some (JStr s) \<Rightarrow> Inr (Some (JStr s)) | _ \<Rightarrow> Inl invalid_type)"

definition z_number :: schema where
  "z_number raw = (case raw of Some (JNum x) \<Rightarrow> Inr (Some (JNum x)) | _ \<Rightarrow> Inl invalid_type)"

definition z_record_number :: schema where
  "z_record_number raw =
     (case raw of
        Some (JObj kvs) \<Rightarrow>
          if list_all (\<lambda>(k, v). case v of JNum x \<Rightarrow> True | _ \<Rightarrow> False) kvs
          then Inr (Some (JObj kvs)) else Inl invalid_type
      | _ \<Rightarrow> Inl invalid_type)"

definition z_delivery_days :: schema where
  "z_delivery_days raw =
     (case raw of
        Some (JNum n) \<Rightarrow>
          if n \<in> set [7, 30, 45, 60] then Inr (Some (JNum n)) else Inl invalid_union
      | _ \<Rightarrow> Inl invalid_union)"

definition z_optional :: "schema \<Rightarrow> schema" where
  "z_optional s raw = (case raw of None \<Rightarrow> Inr None | Some v \<Rightarrow> s (Some v))"

definition z_default :: "json \<Rightarrow> schema \<Rightarrow> schema" where
  "z_default d s raw = (case raw of None \<Rightarrow> Inr (Some d) | Some v \<Rightarrow> s (Some v))"

text \<open>\<open>PriceInputSchema\<close>: the declared keys, in the order of the source, each with its
  schema.\<close>

definition PriceInputSchema_shape :: "(string \<times> schema) list" where
  "PriceInputSchema_shape =
     [(''product_type'', z_enum [''dimensioned'', ''table_only'', ''all_in_one'']),
      (''dimension'', z_optional z_string),
      (''quantity'',
         (\<lambda>raw. case quantity_schema raw of Inl i \<Rightarrow> Inl i | Inr q \<Rightarrow> Inr (Some (JNum q)))),
      (''delivery_days'', z_delivery_days),
      (''base_override_eur'', z_optional z_number),
      (''startup_discount_eur'', z_optional z_number),
      (''first_order_discount_eur'', z_optional z_number),
      (''delivery_surcharge_override'', z_optional z_record_number),
      (''advance_payment'', z_default (JStr ''none'') (z_enum [''none'', ''50'', ''100''])),
      (''two_pcs_line_discount_eur'', z_optional z_number),
      (''advance_payment_discount_eur'', z_optional z_number),
      (''custom_unit_adjust_eur'', z_optional z_number),
      (''custom_line_adjust_eur'', z_optional z_number)]"

text \<open>The keys that \<open>PriceInputSchema\<close> declares.\<close>

definition PriceInputSchema_fields :: "string list" where
  "PriceInputSchema_fields = map fst PriceInputSchema_shape"

text \<open>
  Parsing an object against a shape (\<open>z.object\<close>, which strips the keys it does not
  declare): each declared key is looked up in the input and parsed by its schema; the
  issues are collected, and the output has the declared keys that parsed to a value.
\<close>

fun parse_shape ::
  "(string \<times> schema) list \<Rightarrow> (string \<times> json) list
     \<Rightarrow> (string \<times> zod_issue) list \<times> (string \<times> json) list" where
  "parse_shape [] raw = ([], [])"
| "parse_shape ((k, s) # shape) raw =
     (case s (map_of raw k) of
        Inl i \<Rightarrow> ((k, i) # fst (parse_shape shape raw), snd (parse_shape shape raw))
      | Inr None \<Rightarrow> parse_shape shape raw
      | Inr (Some v) \<Rightarrow> (fst (parse_shape shape raw), (k, v) # snd (parse_shape shape raw)))"

text \<open>\<open>PriceInputSchema.safeParse(req.body)\<close>: the issues, or \<open>parsed.data\<close>.\<close>

definition PriceInputSchema_safeParse ::
  "json \<Rightarrow> (string \<times> zod_issue) list + (string \<times> json) list" where
  "PriceInputSchema_safeParse body =
     (case body of
        JObj raw \<Rightarrow>
          (case parse_shape PriceInputSchema_shape raw of
             ([], data) \<Rightarrow> Inr data
           | (i # issues, data) \<Rightarrow> Inl (i # issues))
      | _ \<Rightarrow> Inl [([], invalid_type)])"

text \<open>
  The payload that the handler of \<open>POST /price\<close> passes to \<open>calculatePrice\<close>:
  \<open>sanitizeOverrides(parsed.data, keyMatches(req))\<close>, or the issues of a rejected body
  (status 400).
\<close>

definition price_payload ::
  "json \<Rightarrow> bool \<Rightarrow> (string \<times> zod_issue) list + (string \<times> json) list" where
  "price_payload body allow =
     (case PriceInputSchema_safeParse body of
        Inl issues \<Rightarrow> Inl issues
      | Inr data \<Rightarrow> Inr (sanitizeOverrides data allow))"


section \<open>The rule-set values of an order, as the specification words them\<close>

text \<open>
  Step 1 of the algorithm of the specification: an explicit override wins; otherwise the
  base is selected by product type, a dimension lookup for a dimensioned product (no
  base when the dimension is absent, empty or unknown), else the fixed base.
\<close>

definition spec_base :: "PricingConfig \<Rightarrow> PriceInput \<Rightarrow> real option" where
  "spec_base cfg input =
     (case base_override_eur input of
        Some v \<Rightarrow> Some v
      | None \<Rightarrow>
          (case product_type input of
             dimensioned \<Rightarrow>
               (case dimension input of
                  None \<Rightarrow> None
                | Some d \<Rightarrow> if d = [] then None else dimensionBaseEUR cfg d)
           | table_only \<Rightarrow> Some (base_table_only cfg)
           | all_in_one \<Rightarrow> Some (base_all_in_one cfg)))"

text \<open>
  Step 2: the delivery surcharge is keyed by the delivery tier, the per-request override
  map checked first; the other adjustments default to the rule-set value unless an
  override is present, and the two custom adjustments default to 0.
\<close>

definition spec_delivery :: "PricingConfig \<Rightarrow> PriceInput \<Rightarrow> real option" where
  "spec_delivery cfg input =
     (case (case delivery_surcharge_override input of
              None \<Rightarrow> None
            | Some m \<Rightarrow> m (String_days (delivery_days input))) of
        Some v \<Rightarrow> Some v
      | None \<Rightarrow> delivery_surcharge_eur cfg (String_days (delivery_days input)))"

definition spec_startup :: "PricingConfig \<Rightarrow> PriceInput \<Rightarrow> real" where
  "spec_startup cfg input =
     (case startup_discount_eur input of Some v \<Rightarrow> v | None \<Rightarrow> cfg_startup_discount_eur cfg)"

definition spec_first_order :: "PricingConfig \<Rightarrow> PriceInput \<Rightarrow> real" where
  "spec_first_order cfg input =
     (case first_order_discount_eur input of
        Some v \<Rightarrow> v
      | None \<Rightarrow> first_order_discount_by_type cfg (product_type input))"

definition spec_advance :: "PricingConfig \<Rightarrow> PriceInput \<Rightarrow> real" where
  "spec_advance cfg input =
     (case advance_payment_discount_eur input of
        Some v \<Rightarrow> v
      | None \<Rightarrow> cfg_advance_payment_discount_eur cfg (advance_payment input))"

definition spec_custom_unit :: "PriceInput \<Rightarrow> real" where
  "spec_custom_unit input = (case custom_unit_adjust_eur input of Some v \<Rightarrow> v | None \<Rightarrow> 0)"

definition spec_custom_line :: "PriceInput \<Rightarrow> real" where
  "spec_custom_line input = (case custom_line_adjust_eur input of Some v \<Rightarrow> v | None \<Rightarrow> 0)"

definition spec_pair_rate :: "PricingConfig \<Rightarrow> PriceInput \<Rightarrow> real" where
  "spec_pair_rate cfg input =
     (case two_pcs_line_discount_eur input of
        Some v \<Rightarrow> v
      | None \<Rightarrow> cfg_two_pcs_line_discount_eur cfg)"

text \<open>
  Step 3: the pre-quantity unit price,
  \<open>max(0, base - startup - firstOrder + delivery - advance) + customUnitAdjust\<close>; step 5:
  the bulk discount, the per-pair rate times \<open>floor(quantity / 2)\<close>, applied only when
  \<open>quantity \<ge> 2\<close>; step 6: \<open>total = max(0, round(subtotal_unrounded - bulkDiscount +
  customLineAdjust))\<close>.  The operators are those of the language.
\<close>

definition spec_unit_price :: "real \<Rightarrow> real \<Rightarrow> real \<Rightarrow> real \<Rightarrow> real \<Rightarrow> real \<Rightarrow> jsval" where
  "spec_unit_price b s f d a c =
     js_add (Math_max0 (js_sub (js_add (js_sub (js_sub (Num b) (Num s)) (Num f)) (Num d)) (Num a)))
       (Num c)"

definition spec_bulk_discount :: "real \<Rightarrow> real \<Rightarrow> jsval" where
  "spec_bulk_discount q rate =
     (if 2 \<le> q then js_mul (Num rate) (Math_floor (js_div (Num q) (Num 2))) else Num 0)"

definition spec_total :: "jsval \<Rightarrow> real \<Rightarrow> jsval \<Rightarrow> real \<Rightarrow> jsval" where
  "spec_total p q bulk cl =
     Math_max0 (Math_round (js_add (js_sub (js_mul p (Num q)) bulk) (Num cl)))"

text \<open>
  An amount in whole currency units of magnitude at most \<open>2 ^ 32\<close>: on such amounts the
  arithmetic of the engine is exact.
\<close>

definition whole_amount :: "real \<Rightarrow> bool" where
  "whole_amount x = (x \<in> \<int> \<and> \<bar>x\<bar> \<le> 2 ^ 32)"


section \<open>Concrete orders and rule sets\<close>

text \<open>
  A rule set that agrees with the figures of \<open>tests/price.test.ts\<close>; the entries that the
  tests do not determine are chosen freely.
\<close>

definition test_cfg :: PricingConfig where
  "test_cfg =
     \<lparr>dimensionBaseEUR = [''200x100'' \<mapsto> 1170],
      base_table_only = 430,
      base_all_in_one = 900,
      cfg_startup_discount_eur = 25,
      first_order_discount_by_type =
        (\<lambda>t. case t of dimensioned \<Rightarrow> 50 | table_only \<Rightarrow> 50 | all_in_one \<Rightarrow> 150),
      delivery_surcharge_eur =
        [''7'' \<mapsto> 300, ''30'' \<mapsto> 200, ''45'' \<mapsto> 100, ''60'' \<mapsto> 25],
      cfg_advance_payment_discount_eur =
        (\<lambda>a. case a of adv_none \<Rightarrow> 0 | adv_50 \<Rightarrow> 50 | adv_100 \<Rightarrow> 100),
      cfg_two_pcs_line_discount_eur = 25\<rparr>"

text \<open>An order with no override field.\<close>

definition order ::
  "product_type \<Rightarrow> string option \<Rightarrow> real \<Rightarrow> delivery_days \<Rightarrow> advance_payment \<Rightarrow> PriceInput"
where
  "order t d q dd a =
     \<lparr>product_type = t, dimension = d, quantity = q, delivery_days = dd,
      base_override_eur = None, startup_discount_eur = None,
      first_order_discount_eur = None, delivery_surcharge_override = None,
      advance_payment = a, two_pcs_line_discount_eur = None,
      advance_payment_discount_eur = None, custom_unit_adjust_eur = None,
      custom_line_adjust_eur = None\<rparr>"

text \<open>A source whose file cannot be read.\<close>

definition missing_file :: "unit config_source" where
  "missing_file =
     \<lparr>file_content = None, JSON_parse = (\<lambda>_. None), safeParse = (\<lambda>_. None)\<rparr>"

text \<open>Scenario A of the tests, and scenario B (two units, one pair).\<close>

definition order_A :: PriceInput where
  "order_A = order dimensioned (Some ''200x100'') 1 D60 adv_none"

definition quote_A :: PriceBreakdown where
  "quote_A =
     \<lparr>base = Num 1170,
      adjustments = \<lparr>startup_discount = 25, first_order_discount = 50,
                      delivery_surcharge = Num 25, advance_payment_discount = 0,
                      two_pcs_line_discount_total = Num 0, custom_unit_adjust = 0,
                      custom_line_adjust = 0\<rparr>,
      unit = Num 1120, subtotal = Num 1120, total = Num 1120\<rparr>"

definition order_B :: PriceInput where
  "order_B = order table_only None 2 D45 adv_50"

definition quote_B :: PriceBreakdown where
  "quote_B =
     \<lparr>base = Num 430,
      adjustments = \<lparr>startup_discount = 25, first_order_discount = 50,
                      delivery_surcharge = Num 100, advance_payment_discount = 50,
                      two_pcs_line_discount_total = Num 25, custom_unit_adjust = 0,
                      custom_line_adjust = 0\<rparr>,
      unit = Num 405, subtotal = Num 810, total = Num 785\<rparr>"


section \<open>Facts about binary64 rounding\<close>

lemma powr_powi: "(2::real) powr real_of_int n = 2 powi n"
  by (simp add: powr_real_of_int')

lemma powr_powi_Suc: "(2::real) powr (real_of_int n + 1) = 2 powi (n + 1)"
  using powr_powi [of "n + 1"] by simp

lemma expo_iff: "0 < a \<Longrightarrow> expo a = k \<longleftrightarrow> 2 powi k \<le> a \<and> a < 2 powi (k + 1)"
  using floor_log_eq_powr_iff [of a 2 k]
  by (simp add: expo_def powr_powi powr_powi_Suc)

lemma expo_bounds:
  assumes "0 < a"
  shows "2 powi expo a \<le> a" and "a < 2 powi (expo a + 1)"
  using expo_iff [OF assms, of "expo a"] by simp_all

lemma rne_of_int [simp]: "rne (of_int n) = n"
  by (simp add: rne_def)

lemma rne_nonneg: "0 \<le> r \<Longrightarrow> 0 \<le> rne r"
  by (auto simp: rne_def)

lemma rne_le: "of_int (rne r) \<le> r + 1"
  by (auto simp: rne_def) linarith+

lemma quantum_le:
  assumes "x = of_int m * 2 powi e" and "m \<noteq> 0" and "\<bar>m\<bar> < 2 ^ 53" and "- 1074 \<le> e"
  shows "quantum x \<le> e"
proof -
  have ax: "\<bar>x\<bar> = of_int \<bar>m\<bar> * 2 powi e"
    by (simp add: assms(1) abs_mult)
  have pos: "0 < \<bar>x\<bar>"
    using assms(2) by (simp add: ax)
  have "of_int \<bar>m\<bar> < (2::real) ^ 53"
    using assms(3) by (metis of_int_less_iff of_int_numeral of_int_power)
  then have "\<bar>x\<bar> < 2 ^ 53 * 2 powi e"
    unfolding ax by simp
  also have "\<dots> = 2 powi (53 + e)"
    by (simp add: power_int_add)
  finally have lt: "\<bar>x\<bar> < 2 powi (53 + e)" .
  have "2 powi expo \<bar>x\<bar> \<le> \<bar>x\<bar>"
    by (rule expo_bounds(1) [OF pos])
  with lt have "(2::real) powi expo \<bar>x\<bar> < 2 powi (53 + e)"
    by linarith
  then have "expo \<bar>x\<bar> < 53 + e"
    by (smt (verit) power_int_increasing)
  with assms(4) show ?thesis
    by (simp add: quantum_def)
qed

text \<open>A binary64 value is its own rounding: an operation with an exact result that is
  representable returns it.\<close>

lemma fl_exact:
  assumes "x \<in> binary64"
  shows "fl x = Num x"
proof (cases "x = 0")
  case True
  then show ?thesis by (simp add: fl_def)
next
  case False
  from assms obtain m e where x: "x = of_int m * 2 powi e"
    and m: "\<bar>m\<bar> < 2 ^ 53" and e: "- 1074 \<le> e" "e \<le> 971"
    by (auto simp: binary64_def)
  from False x have m0: "m \<noteq> 0" by auto
  let ?u = "quantum x"
  have u: "?u \<le> e"
    by (rule quantum_le [OF x m0 m e(1)])
  have ax: "\<bar>x\<bar> = of_int \<bar>m\<bar> * 2 powi e"
    by (simp add: x abs_mult)
  have "2 powi e = (2::real) powi (e - ?u) * 2 powi ?u"
    by (simp flip: power_int_add)
  also have "(2::real) powi (e - ?u) = of_int (2 ^ nat (e - ?u))"
    using u by (simp add: power_int_def)
  finally have q: "\<bar>x\<bar> / 2 powi ?u = of_int (\<bar>m\<bar> * 2 ^ nat (e - ?u))"
    unfolding ax by simp
  have "of_int (rne (\<bar>x\<bar> / 2 powi ?u)) * 2 powi ?u = \<bar>x\<bar> / 2 powi ?u * 2 powi ?u"
    unfolding q by (simp only: rne_of_int)
  then have r: "of_int (rne (\<bar>x\<bar> / 2 powi ?u)) * 2 powi ?u = \<bar>x\<bar>"
    by simp
  have "of_int \<bar>m\<bar> < (2::real) ^ 53"
    using m by (metis of_int_less_iff of_int_numeral of_int_power)
  then have "\<bar>x\<bar> < 2 ^ 53 * 2 powi e"
    unfolding ax by simp
  also have "\<dots> = 2 powi (53 + e)"
    by (simp add: power_int_add)
  also have "\<dots> \<le> 2 powi 1024"
    using e(2) by (intro power_int_increasing) auto
  finally have "\<not> 2 powi 1024 \<le> \<bar>x\<bar>" by simp
  with False r show ?thesis
    by (simp add: fl_def del: power_int_numeral) (simp add: sgn_real_def)
qed

lemma binary64_of_int: "\<bar>n\<bar> < 2 ^ 53 \<Longrightarrow> of_int n \<in> binary64"
  unfolding binary64_def
  by (rule CollectI, rule exI [of _ n], rule exI [of _ 0]) simp

lemma fl_Ints:
  assumes "x \<in> \<int>" and "\<bar>x\<bar> < 2 ^ 53"
  shows "fl x = Num x"
proof -
  from assms(1) obtain n where x: "x = of_int n"
    by (auto elim: Ints_cases)
  from assms(2) have "of_int \<bar>n\<bar> < (of_int (2 ^ 53) :: real)"
    by (simp add: x)
  then have "\<bar>n\<bar> < 2 ^ 53"
    by (simp only: of_int_less_iff)
  then show ?thesis
    unfolding x by (intro fl_exact binary64_of_int)
qed

text \<open>Halving a binary64 value of magnitude at least 1 is exact.\<close>

lemma binary64_half:
  assumes "x \<in> binary64" and "1 \<le> \<bar>x\<bar>"
  shows "x / 2 \<in> binary64"
proof -
  from assms(1) obtain m e where x: "x = of_int m * 2 powi e"
    and m: "\<bar>m\<bar> < 2 ^ 53" and e: "- 1074 \<le> e" "e \<le> 971"
    by (auto simp: binary64_def)
  have "e \<noteq> - 1074"
  proof
    assume e1: "e = - 1074"
    have "of_int \<bar>m\<bar> < (2::real) ^ 53"
      using m by (metis of_int_less_iff of_int_numeral of_int_power)
    then have "\<bar>x\<bar> < 2 ^ 53 * 2 powi e"
      by (simp add: x abs_mult)
    also have "\<dots> = 2 powi (53 + e)"
      by (simp add: power_int_add)
    also have "\<dots> \<le> 2 powi 0"
      unfolding e1 by (intro power_int_increasing) auto
    finally show False
      using assms(2) by simp
  qed
  with e have e': "- 1074 \<le> e - 1" "e - 1 \<le> 971"
    by auto
  have "x / 2 = of_int m * 2 powi (e - 1)"
    by (simp add: x power_int_diff)
  with m e' show ?thesis
    unfolding binary64_def by blast
qed

lemma js_half:
  assumes "x \<in> binary64" and "1 \<le> \<bar>x\<bar>"
  shows "js_div (Num x) (Num 2) = Num (x / 2)"
  using fl_exact [OF binary64_half [OF assms]] by simp

text \<open>The rounding of a real that is not negative is not negative.\<close>

lemma fl_nonneg:
  assumes "0 \<le> x"
  shows "fl x = PosInf \<or> (\<exists>y. fl x = Num y \<and> 0 \<le> y)"
proof (cases "x = 0")
  case True
  then show ?thesis by (simp add: fl_def)
next
  case False
  with assms have pos: "0 < x" by simp
  have "0 \<le> \<bar>x\<bar> / 2 powi quantum x"
    by simp
  then have "0 \<le> rne (\<bar>x\<bar> / 2 powi quantum x)"
    by (rule rne_nonneg)
  then have "0 \<le> of_int (rne (\<bar>x\<bar> / 2 powi quantum x)) * (2::real) powi quantum x"
    by simp
  with pos show ?thesis
    by (simp add: fl_def del: power_int_numeral)
qed

text \<open>Far from the overflow threshold the rounding is a number, at most twice as large
  as the bound of the exact result.\<close>

lemma fl_bound:
  assumes "\<bar>x\<bar> \<le> B" and "1 \<le> B" and "B \<le> 2 ^ 100"
  shows "\<exists>y. fl x = Num y \<and> \<bar>y\<bar> \<le> 2 * B"
proof (cases "x = 0")
  case True
  with assms show ?thesis by (simp add: fl_def)
next
  case False
  let ?u = "quantum x"
  let ?y = "of_int (rne (\<bar>x\<bar> / 2 powi ?u)) * (2::real) powi ?u"
  have pos: "0 < \<bar>x\<bar>"
    using False by simp
  have y0: "0 \<le> ?y"
    using rne_nonneg [of "\<bar>x\<bar> / 2 powi ?u"] by simp
  have "of_int (rne (\<bar>x\<bar> / 2 powi ?u)) \<le> \<bar>x\<bar> / 2 powi ?u + 1"
    by (rule rne_le)
  then have "?y \<le> (\<bar>x\<bar> / 2 powi ?u + 1) * 2 powi ?u"
    by (intro mult_right_mono) simp_all
  also have "\<dots> = \<bar>x\<bar> + 2 powi ?u"
    by (simp add: field_simps)
  finally have y1: "?y \<le> \<bar>x\<bar> + 2 powi ?u" .
  have q: "(2::real) powi ?u \<le> B"
  proof (cases "- 1022 \<le> expo \<bar>x\<bar>")
    case True
    then have "?u \<le> expo \<bar>x\<bar>"
      by (simp add: quantum_def)
    then have "(2::real) powi ?u \<le> 2 powi expo \<bar>x\<bar>"
      by (intro power_int_increasing) simp_all
    also have "\<dots> \<le> \<bar>x\<bar>"
      by (rule expo_bounds(1) [OF pos])
    finally show ?thesis
      using assms(1) by simp
  next
    case False
    then have "?u \<le> 0"
      by (simp add: quantum_def)
    then have "(2::real) powi ?u \<le> 2 powi 0"
      by (intro power_int_increasing) simp_all
    then show ?thesis
      using assms(2) by simp
  qed
  from y1 q assms(1) have y2: "?y \<le> 2 * B"
    by simp
  have "(2::real) * 2 ^ 100 < 2 ^ 1024"
    using power_strict_increasing [of 101 1024 "2::real"] by simp
  with y2 assms(3) have "\<not> 2 powi 1024 \<le> ?y"
    by simp
  then have "fl x = Num (sgn x * ?y)"
    using False by (simp add: fl_def del: power_int_numeral)
  moreover have "\<bar>sgn x * ?y\<bar> \<le> 2 * B"
    using y0 y2 False by (simp add: abs_mult)
  ultimately show ?thesis
    by blast
qed

text \<open>Rules that evaluate the rounding of an integer literal and of a half.\<close>

lemma fl_0 [simp]: "fl 0 = Num 0"
  by (simp add: fl_def)

lemma fl_1 [simp]: "fl 1 = Num 1"
  using fl_Ints [of 1] by simp

lemma fl_numeral:
  "(numeral w :: real) < 2 ^ 53 \<Longrightarrow> fl (numeral w) = Num (numeral w)"
  using fl_Ints [of "numeral w"] by simp

lemma fl_neg_numeral:
  "(numeral w :: real) < 2 ^ 53 \<Longrightarrow> fl (- numeral w) = Num (- numeral w)"
  using fl_Ints [of "- numeral w"] by simp

lemma fl_half_numeral:
  "(numeral w :: real) < 2 ^ 53 \<Longrightarrow> fl (numeral w / 2) = Num (numeral w / 2)"
proof -
  assume a: "(numeral w :: real) < 2 ^ 53"
  have "(numeral w :: real) \<in> binary64"
    using binary64_of_int [of "numeral w"] a
    by (metis abs_numeral of_int_less_iff of_int_numeral of_int_power)
  then show ?thesis
    by (intro fl_exact binary64_half) simp_all
qed

lemma fl_half [simp]: "fl (1 / 2) = Num (1 / 2)"
proof -
  have "(1::real) \<in> binary64"
    using binary64_of_int [of 1] by simp
  then show ?thesis
    by (intro fl_exact binary64_half) simp_all
qed

lemmas fl_eval = fl_numeral fl_neg_numeral fl_half_numeral


section \<open>Facts about the engine\<close>

lemma getPricingConfig_cached [simp]:
  "getPricingConfig src (Some cfg) = (Inr cfg, Some cfg)"
  by (simp add: getPricingConfig_def)

lemma calculatePrice_loaded:
  "getPricingConfig src cached = (Inr cfg, c') \<Longrightarrow>
   calculatePrice src cached input = (price_with cfg input, c')"
  by (simp add: calculatePrice_def)

lemma calculatePrice_Inr:
  "calculatePrice src cached input = (Inr r, c') \<Longrightarrow>
   \<exists>cfg. getPricingConfig src cached = (Inr cfg, c') \<and> price_with cfg input = Inr r"
  by (auto simp: calculatePrice_def split: prod.splits sum.splits)


lemma price_with_result:
  assumes "price_with cfg input = Inr r"
  shows "resolve_base cfg input = Inr (base r)"
    and "two_pcs_line_discount_total (adjustments r) =
           spec_bulk_discount (quantity input) (spec_pair_rate cfg input)"
    and "custom_unit_adjust (adjustments r) = spec_custom_unit input"
    and "custom_line_adjust (adjustments r) = spec_custom_line input"
    and "unit r =
           Math_round (unit_before_qty (base r) (startup_discount (adjustments r))
             (first_order_discount (adjustments r)) (delivery_surcharge (adjustments r))
             (advance_payment_discount (adjustments r)) (custom_unit_adjust (adjustments r)))"
    and "total r =
           spec_total (unit_before_qty (base r) (startup_discount (adjustments r))
                (first_order_discount (adjustments r)) (delivery_surcharge (adjustments r))
                (advance_payment_discount (adjustments r)) (custom_unit_adjust (adjustments r)))
             (quantity input) (two_pcs_line_discount_total (adjustments r))
             (custom_line_adjust (adjustments r))"
  using assms
  unfolding price_with_def Let_def spec_bulk_discount_def spec_pair_rate_def
    spec_custom_unit_def spec_custom_line_def spec_total_def or_default_def
  by (auto split: sum.splits)

text \<open>When the specification resolves the base, the code resolves the same number.\<close>

lemma resolve_base_spec:
  "spec_base cfg input = Some b \<Longrightarrow> resolve_base cfg input = Inr (Num b)"
  by (auto simp: spec_base_def resolve_base_def js_in_def js_get_def
      split: option.splits product_type.splits if_splits)

text \<open>
  The tier lookups.  The advance-payment table is total, so \<open>advance\<close> is a number
  by its type.  The delivery surcharge is a number as soon as the tier is a key of the
  rule set's table or of the override map, and \<open>undefined\<close> otherwise.
\<close>

lemma delivery_lookup:
  assumes "price_with cfg input = Inr r"
  shows "delivery_surcharge (adjustments r) =
           (case or_default (delivery_surcharge_override input) Map.empty
                   (String_days (delivery_days input)) of
              Some x \<Rightarrow> Num x
            | None \<Rightarrow>
                (case delivery_surcharge_eur cfg (String_days (delivery_days input)) of
                   Some y \<Rightarrow> Num y
                 | None \<Rightarrow> Undefined))"
proof -
  have n: "String_days (delivery_days input) \<notin> set object_prototype_names"
    by (cases "delivery_days input") (simp_all add: object_prototype_names_def)
  from assms have "delivery_surcharge (adjustments r) =
      nullish (js_get (or_default (delivery_surcharge_override input) Map.empty)
                 (String_days (delivery_days input)))
        (js_get (delivery_surcharge_eur cfg) (String_days (delivery_days input)))"
    by (auto simp: price_with_def Let_def split: sum.splits)
  with n show ?thesis
    by (simp add: js_get_def nullish_def split: option.splits)
qed

text \<open>
  The whole breakdown of an order whose base and delivery surcharge the specification
  resolves, in terms of the order and the rule set.
\<close>

lemma price_with_spec:
  assumes "spec_base cfg input = Some b" and "spec_delivery cfg input = Some d"
  shows "price_with cfg input =
     Inr \<lparr>base = Num b,
          adjustments =
            \<lparr>startup_discount = spec_startup cfg input,
             first_order_discount = spec_first_order cfg input,
             delivery_surcharge = Num d,
             advance_payment_discount = spec_advance cfg input,
             two_pcs_line_discount_total =
               spec_bulk_discount (quantity input) (spec_pair_rate cfg input),
             custom_unit_adjust = spec_custom_unit input,
             custom_line_adjust = spec_custom_line input\<rparr>,
          unit = Math_round
                   (spec_unit_price b (spec_startup cfg input) (spec_first_order cfg input) d
                      (spec_advance cfg input) (spec_custom_unit input)),
          subtotal = Math_round
                       (js_mul
                          (spec_unit_price b (spec_startup cfg input)
                             (spec_first_order cfg input) d (spec_advance cfg input)
                             (spec_custom_unit input))
                          (Num (quantity input))),
          total = spec_total
                    (spec_unit_price b (spec_startup cfg input) (spec_first_order cfg input) d
                       (spec_advance cfg input) (spec_custom_unit input))
                    (quantity input)
                    (spec_bulk_discount (quantity input) (spec_pair_rate cfg input))
                    (spec_custom_line input)\<rparr>"
proof -
  have n: "String_days (delivery_days input) \<notin> set object_prototype_names"
    by (cases "delivery_days input") (simp_all add: object_prototype_names_def)
  have dl: "nullish (js_get (or_default (delivery_surcharge_override input) Map.empty)
                 (String_days (delivery_days input)))
        (js_get (delivery_surcharge_eur cfg) (String_days (delivery_days input))) = Num d"
    using assms(2) n
    by (auto simp: spec_delivery_def js_get_def nullish_def or_default_def
        split: option.splits)
  show ?thesis
    unfolding price_with_def resolve_base_spec [OF assms(1)] Let_def dl
    unfolding spec_startup_def spec_first_order_def spec_advance_def
      spec_custom_unit_def spec_custom_line_def spec_pair_rate_def
      spec_bulk_discount_def spec_total_def spec_unit_price_def unit_before_qty_def
      or_default_def
    by simp
qed

section \<open>Exact and bounded arithmetic of the engine\<close>

lemma js_sub_Ints:
  "x \<in> \<int> \<Longrightarrow> y \<in> \<int> \<Longrightarrow> \<bar>x - y\<bar> < 9007199254740992 \<Longrightarrow> js_sub (Num x) (Num y) = Num (x - y)"
  by (simp add: fl_Ints)

lemma js_add_Ints:
  "x \<in> \<int> \<Longrightarrow> y \<in> \<int> \<Longrightarrow> \<bar>x + y\<bar> < 9007199254740992 \<Longrightarrow> js_add (Num x) (Num y) = Num (x + y)"
  by (simp add: fl_Ints)

lemma js_mul_Ints:
  "x \<in> \<int> \<Longrightarrow> y \<in> \<int> \<Longrightarrow> \<bar>x * y\<bar> < 9007199254740992 \<Longrightarrow> js_mul (Num x) (Num y) = Num (x * y)"
  by (simp add: fl_Ints)

lemma whole_amountD:
  "whole_amount x \<Longrightarrow> x \<in> \<int>"
  "whole_amount x \<Longrightarrow> - 4294967296 \<le> x"
  "whole_amount x \<Longrightarrow> x \<le> 4294967296"
  by (simp_all add: whole_amount_def abs_le_iff)

text \<open>On whole amounts the unit price is the exact value of the formula.\<close>

lemma spec_unit_price_whole:
  assumes "whole_amount b" and "whole_amount s" and "whole_amount f"
    and "whole_amount d" and "whole_amount a" and "whole_amount c"
  shows "spec_unit_price b s f d a c = Num (max 0 (b - s - f + d - a) + c)"
    and "max 0 (b - s - f + d - a) + c \<in> \<int>"
    and "\<bar>max 0 (b - s - f + d - a) + c\<bar> \<le> 25769803776"
proof -
  note I = assms [THEN whole_amountD(1)]
  note B = assms [THEN whole_amountD(2)] assms [THEN whole_amountD(3)]
  have 1: "js_sub (Num b) (Num s) = Num (b - s)"
  proof (rule js_sub_Ints)
    show "\<bar>b - s\<bar> < 9007199254740992" using B by linarith
  qed (use I in simp_all)
  have 2: "js_sub (Num (b - s)) (Num f) = Num (b - s - f)"
  proof (rule js_sub_Ints)
    show "\<bar>b - s - f\<bar> < 9007199254740992" using B by linarith
  qed (use I in simp_all)
  have 3: "js_add (Num (b - s - f)) (Num d) = Num (b - s - f + d)"
  proof (rule js_add_Ints)
    show "\<bar>b - s - f + d\<bar> < 9007199254740992" using B by linarith
  qed (use I in simp_all)
  have 4: "js_sub (Num (b - s - f + d)) (Num a) = Num (b - s - f + d - a)"
  proof (rule js_sub_Ints)
    show "\<bar>b - s - f + d - a\<bar> < 9007199254740992" using B by linarith
  qed (use I in simp_all)
  have m: "max 0 (b - s - f + d - a) \<in> \<int>"
    using I by (simp add: max_def)
  have mb: "0 \<le> max 0 (b - s - f + d - a)" "max 0 (b - s - f + d - a) \<le> 21474836480"
    using B by (simp_all add: max_def)
  have 5: "js_add (Num (max 0 (b - s - f + d - a))) (Num c) =
             Num (max 0 (b - s - f + d - a) + c)"
  proof (rule js_add_Ints)
    show "\<bar>max 0 (b - s - f + d - a) + c\<bar> < 9007199254740992"
      using mb B by linarith
  qed (use m I in simp_all)
  show "spec_unit_price b s f d a c = Num (max 0 (b - s - f + d - a) + c)"
    unfolding spec_unit_price_def 1 2 3 4 Math_max0.simps 5 ..
  show "max 0 (b - s - f + d - a) + c \<in> \<int>"
    using m I by simp
  show "\<bar>max 0 (b - s - f + d - a) + c\<bar> \<le> 25769803776"
    using mb B by linarith
qed

text \<open>Halving a whole quantity and multiplying whole numbers of this size are exact.\<close>

lemma pairs_binary64:
  assumes "q \<in> binary64" and "1 \<le> q"
  shows "Math_floor (js_div (Num q) (Num 2)) = Num (of_int \<lfloor>q / 2\<rfloor>)"
proof -
  from assms(2) have "1 \<le> \<bar>q\<bar>" by simp
  from js_half [OF assms(1) this] show ?thesis by simp
qed

lemma Ints_binary64:
  assumes "q \<in> \<int>" and "\<bar>q\<bar> < 2 ^ 53"
  shows "q \<in> binary64"
proof -
  from assms(1) obtain n where q: "q = of_int n"
    by (auto elim: Ints_cases)
  from assms(2) have "of_int \<bar>n\<bar> < (of_int (2 ^ 53) :: real)"
    by (simp add: q)
  then have "\<bar>n\<bar> < 2 ^ 53"
    by (simp only: of_int_less_iff)
  then show ?thesis
    unfolding q by (rule binary64_of_int)
qed

lemma floor_half_bounds:
  fixes q :: real
  assumes "1 \<le> q" and "q \<le> 500"
  shows "0 \<le> \<lfloor>q / 2\<rfloor>" and "\<lfloor>q / 2\<rfloor> \<le> 250"
proof -
  from assms(1) show "0 \<le> \<lfloor>q / 2\<rfloor>" by simp
  from assms(2) have "q / 2 \<le> 250" by simp
  then have "\<lfloor>q / 2\<rfloor> \<le> \<lfloor>250::real\<rfloor>" by (rule floor_mono)
  then show "\<lfloor>q / 2\<rfloor> \<le> 250" by simp
qed

lemma spec_bulk_discount_whole:
  assumes "q \<in> binary64" and "1 \<le> q" and "q \<le> 500" and "whole_amount rate"
  shows "spec_bulk_discount q rate = Num (if 2 \<le> q then of_int \<lfloor>q / 2\<rfloor> * rate else 0)"
    and "(if 2 \<le> q then of_int \<lfloor>q / 2\<rfloor> * rate else 0) \<in> \<int>"
    and "\<bar>if 2 \<le> q then of_int \<lfloor>q / 2\<rfloor> * rate else 0\<bar> \<le> 1073741824000"
proof -
  note I = whole_amountD(1) [OF assms(4)]
  note B = whole_amountD(2) [OF assms(4)] whole_amountD(3) [OF assms(4)]
  note h = floor_half_bounds [OF assms(2,3)]
  have hb: "\<bar>real_of_int \<lfloor>q / 2\<rfloor>\<bar> \<le> 250"
    using h by simp
  have rb: "\<bar>rate\<bar> \<le> 4294967296"
    using B by (simp add: abs_le_iff)
  have "\<bar>rate * of_int \<lfloor>q / 2\<rfloor>\<bar> = \<bar>rate\<bar> * \<bar>real_of_int \<lfloor>q / 2\<rfloor>\<bar>"
    by (simp add: abs_mult)
  also have "\<dots> \<le> 4294967296 * 250"
    using rb hb by (intro mult_mono) simp_all
  finally have pb: "\<bar>rate * of_int \<lfloor>q / 2\<rfloor>\<bar> \<le> 1073741824000"
    by simp
  have "js_mul (Num rate) (Num (of_int \<lfloor>q / 2\<rfloor>)) = Num (rate * of_int \<lfloor>q / 2\<rfloor>)"
  proof (rule js_mul_Ints)
    show "\<bar>rate * of_int \<lfloor>q / 2\<rfloor>\<bar> < 9007199254740992"
      using pb by linarith
  qed (use I in simp_all)
  then show "spec_bulk_discount q rate =
      Num (if 2 \<le> q then of_int \<lfloor>q / 2\<rfloor> * rate else 0)"
    unfolding spec_bulk_discount_def pairs_binary64 [OF assms(1,2)]
    by (simp add: mult.commute)
  show "(if 2 \<le> q then of_int \<lfloor>q / 2\<rfloor> * rate else 0) \<in> \<int>"
    using I by simp
  show "\<bar>if 2 \<le> q then of_int \<lfloor>q / 2\<rfloor> * rate else 0\<bar> \<le> 1073741824000"
    using pb by (simp add: mult.commute)
qed

text \<open>On whole amounts and a whole quantity the subtotal and the total are the exact
  values of their formulas.\<close>

lemma spec_total_whole:
  assumes "p \<in> \<int>" and "\<bar>p\<bar> \<le> 25769803776"
    and "q \<in> \<int>" and "1 \<le> q" and "q \<le> 500"
    and "bulk \<in> \<int>" and "\<bar>bulk\<bar> \<le> 1073741824000"
    and "whole_amount cl"
  shows "js_mul (Num p) (Num q) = Num (p * q)"
    and "spec_total (Num p) q (Num bulk) cl =
           Num (max 0 (of_int (round (p * q - bulk + cl))))"
proof -
  note I = whole_amountD(1) [OF assms(8)]
  note B = whole_amountD(2) [OF assms(8)] whole_amountD(3) [OF assms(8)]
  have "\<bar>p * q\<bar> = \<bar>p\<bar> * \<bar>q\<bar>"
    by (simp add: abs_mult)
  also have "\<dots> \<le> 25769803776 * 500"
    using assms(2,4,5) by (intro mult_mono) simp_all
  finally have pb: "\<bar>p * q\<bar> \<le> 12884901888000"
    by simp
  show 1: "js_mul (Num p) (Num q) = Num (p * q)"
  proof (rule js_mul_Ints)
    show "\<bar>p * q\<bar> < 9007199254740992"
      using pb by linarith
  qed (use assms(1,3) in simp_all)
  have 2: "js_sub (Num (p * q)) (Num bulk) = Num (p * q - bulk)"
  proof (rule js_sub_Ints)
    show "\<bar>p * q - bulk\<bar> < 9007199254740992"
      using pb assms(7) by linarith
  qed (use assms(1,3,6) in simp_all)
  have 3: "js_add (Num (p * q - bulk)) (Num cl) = Num (p * q - bulk + cl)"
  proof (rule js_add_Ints)
    show "\<bar>p * q - bulk + cl\<bar> < 9007199254740992"
      using pb assms(7) B by linarith
  qed (use assms(1,3,6) I in simp_all)
  show "spec_total (Num p) q (Num bulk) cl =
      Num (max 0 (of_int (round (p * q - bulk + cl))))"
    unfolding spec_total_def 1 2 3 by simp
qed

lemma fl_bounded:
  assumes "\<bar>x\<bar> \<le> B" and "1 \<le> B" and "B \<le> 2 ^ 100"
  obtains y where "fl x = Num y" and "\<bar>y\<bar> \<le> 2 * B"
  using fl_bound [OF assms] by blast

text \<open>Amounts of magnitude at most \<open>2 ^ 32\<close>, whole or not, keep the unit price and the
  total far from overflow.\<close>

lemma spec_unit_price_bounded:
  assumes "\<bar>b\<bar> \<le> 2 ^ 32" and "\<bar>s\<bar> \<le> 2 ^ 32" and "\<bar>f\<bar> \<le> 2 ^ 32"
    and "\<bar>d\<bar> \<le> 2 ^ 32" and "\<bar>a\<bar> \<le> 2 ^ 32" and "\<bar>c\<bar> \<le> 2 ^ 32"
  obtains p where "spec_unit_price b s f d a c = Num p" and "\<bar>p\<bar> \<le> 403726925824"
    and "0 \<le> c \<longrightarrow> 0 \<le> p"
proof -
  from assms have B: "\<bar>b\<bar> \<le> 4294967296" "\<bar>s\<bar> \<le> 4294967296" "\<bar>f\<bar> \<le> 4294967296"
    "\<bar>d\<bar> \<le> 4294967296" "\<bar>a\<bar> \<le> 4294967296" "\<bar>c\<bar> \<le> 4294967296"
    by simp_all
  have "\<bar>b - s\<bar> \<le> 8589934592"
    using B by linarith
  then obtain t1 where 1: "fl (b - s) = Num t1" and b1: "\<bar>t1\<bar> \<le> 2 * 8589934592"
    by (rule fl_bounded) simp_all
  have "\<bar>t1 - f\<bar> \<le> 21474836480"
    using b1 B by linarith
  then obtain t2 where 2: "fl (t1 - f) = Num t2" and b2: "\<bar>t2\<bar> \<le> 2 * 21474836480"
    by (rule fl_bounded) simp_all
  have "\<bar>t2 + d\<bar> \<le> 47244640256"
    using b2 B by linarith
  then obtain t3 where 3: "fl (t2 + d) = Num t3" and b3: "\<bar>t3\<bar> \<le> 2 * 47244640256"
    by (rule fl_bounded) simp_all
  have "\<bar>t3 - a\<bar> \<le> 98784247808"
    using b3 B by linarith
  then obtain t4 where 4: "fl (t3 - a) = Num t4" and b4: "\<bar>t4\<bar> \<le> 2 * 98784247808"
    by (rule fl_bounded) simp_all
  have m: "0 \<le> max 0 t4" "max 0 t4 \<le> 197568495616"
    using b4 by linarith+
  have "\<bar>max 0 t4 + c\<bar> \<le> 201863462912"
    using m B by linarith
  then obtain p where 5: "fl (max 0 t4 + c) = Num p" and b5: "\<bar>p\<bar> \<le> 2 * 201863462912"
    by (rule fl_bounded) simp_all
  have e: "spec_unit_price b s f d a c = Num p"
    by (simp add: spec_unit_price_def 1 2 3 4 5)
  have n: "0 \<le> p" if "0 \<le> c"
  proof -
    from that m(1) have "0 \<le> max 0 t4 + c" by linarith
    from fl_nonneg [OF this] show ?thesis
      unfolding 5 by simp
  qed
  from e b5 n show ?thesis
    by (intro that [of p]) simp_all
qed

lemma spec_total_bounded:
  assumes "\<bar>p\<bar> \<le> 403726925824" and "1 \<le> q" and "q \<le> 500"
    and "\<bar>rate\<bar> \<le> 2 ^ 32" and "\<bar>cl\<bar> \<le> 2 ^ 32"
  obtains t where "spec_total (Num p) q (spec_bulk_discount q rate) cl = Num t" and "0 \<le> t"
proof -
  from assms have B: "\<bar>rate\<bar> \<le> 4294967296" "\<bar>cl\<bar> \<le> 4294967296"
    by simp_all
  have "\<bar>p * q\<bar> = \<bar>p\<bar> * \<bar>q\<bar>"
    by (simp add: abs_mult)
  also have "\<dots> \<le> 403726925824 * 500"
    using assms(1-3) by (intro mult_mono) simp_all
  finally have "\<bar>p * q\<bar> \<le> 201863462912000"
    by simp
  then obtain sq where 1: "fl (p * q) = Num sq" and b1: "\<bar>sq\<bar> \<le> 2 * 201863462912000"
    by (rule fl_bounded) simp_all
  have "\<bar>q / 2\<bar> \<le> 250"
    using assms(2,3) by simp
  then obtain h where 2: "fl (q / 2) = Num h" and b2: "\<bar>h\<bar> \<le> 2 * 250"
    by (rule fl_bounded) simp_all
  have hb: "\<bar>real_of_int \<lfloor>h\<rfloor>\<bar> \<le> 501"
    using b2 by linarith
  have "\<bar>rate * of_int \<lfloor>h\<rfloor>\<bar> = \<bar>rate\<bar> * \<bar>real_of_int \<lfloor>h\<rfloor>\<bar>"
    by (simp add: abs_mult)
  also have "\<dots> \<le> 4294967296 * 501"
    using B(1) hb by (intro mult_mono) simp_all
  finally have "\<bar>rate * of_int \<lfloor>h\<rfloor>\<bar> \<le> 2151778615296"
    by simp
  then obtain k where 3: "fl (rate * of_int \<lfloor>h\<rfloor>) = Num k" and b3: "\<bar>k\<bar> \<le> 2 * 2151778615296"
    by (rule fl_bounded) simp_all
  obtain bulk where 4: "spec_bulk_discount q rate = Num bulk" and b4: "\<bar>bulk\<bar> \<le> 4303557230592"
  proof (cases "2 \<le> q")
    case True
    then have "spec_bulk_discount q rate = Num k"
      by (simp add: spec_bulk_discount_def 2 3)
    with b3 show ?thesis
      by (intro that [of k]) simp_all
  next
    case False
    then have "spec_bulk_discount q rate = Num 0"
      by (simp add: spec_bulk_discount_def)
    then show ?thesis
      by (intro that [of 0]) simp_all
  qed
  have "\<bar>sq - bulk\<bar> \<le> 408030483054592"
    using b1 b4 by linarith
  then obtain u where 5: "fl (sq - bulk) = Num u" and b5: "\<bar>u\<bar> \<le> 2 * 408030483054592"
    by (rule fl_bounded) simp_all
  have "\<bar>u + cl\<bar> \<le> 816065261076480"
    using b5 B by linarith
  then obtain v where 6: "fl (u + cl) = Num v" and b6: "\<bar>v\<bar> \<le> 2 * 816065261076480"
    by (rule fl_bounded) simp_all
  have "spec_total (Num p) q (spec_bulk_discount q rate) cl =
      Num (max 0 (of_int (round v)))"
    by (simp add: spec_total_def 4 1 5 6)
  then show ?thesis
    by (intro that [of "max 0 (of_int (round v))"]) simp_all
qed

text \<open>Whatever the operands, a value clamped at zero, and a clamped value plus an amount
  that is not negative, are never negative.\<close>

lemma Math_max0_cases:
  "Math_max0 v = NaN \<or> Math_max0 v = PosInf \<or> (\<exists>t. Math_max0 v = Num t \<and> 0 \<le> t)"
  by (cases v) simp_all

lemma unit_never_negative:
  assumes "0 \<le> c"
  shows "Math_round (js_add (Math_max0 v) (Num c)) = NaN
         \<or> Math_round (js_add (Math_max0 v) (Num c)) = PosInf
         \<or> (\<exists>u. Math_round (js_add (Math_max0 v) (Num c)) = Num u \<and> 0 \<le> u)"
proof -
  consider "Math_max0 v = NaN" | "Math_max0 v = PosInf"
    | t where "Math_max0 v = Num t" and "0 \<le> t"
    using Math_max0_cases [of v] by blast
  then show ?thesis
  proof cases
    case 1
    then show ?thesis by simp
  next
    case 2
    then show ?thesis by simp
  next
    case 3
    from 3(2) assms have "0 \<le> t + c" by simp
    from fl_nonneg [OF this] show ?thesis
    proof
      assume "fl (t + c) = PosInf"
      with 3(1) show ?thesis by simp
    next
      assume "\<exists>y. fl (t + c) = Num y \<and> 0 \<le> y"
      then obtain y where y: "fl (t + c) = Num y" "0 \<le> y" by blast
      from y(2) have "round (0::real) \<le> round y" by (rule round_mono)
      with 3(1) y(1) show ?thesis by simp
    qed
  qed
qed

text \<open>The fields of the breakdown of an order whose base and delivery surcharge the
  specification resolves.\<close>

lemma calculatePrice_spec:
  assumes "getPricingConfig src cached = (Inr cfg, cached')"
    and "spec_base cfg input = Some b" and "spec_delivery cfg input = Some d"
  obtains r where "calculatePrice src cached input = (Inr r, cached')"
    and "base r = Num b"
    and "startup_discount (adjustments r) = spec_startup cfg input"
    and "first_order_discount (adjustments r) = spec_first_order cfg input"
    and "delivery_surcharge (adjustments r) = Num d"
    and "advance_payment_discount (adjustments r) = spec_advance cfg input"
    and "two_pcs_line_discount_total (adjustments r) =
           spec_bulk_discount (quantity input) (spec_pair_rate cfg input)"
    and "custom_unit_adjust (adjustments r) = spec_custom_unit input"
    and "custom_line_adjust (adjustments r) = spec_custom_line input"
    and "unit r =
           Math_round (spec_unit_price b (spec_startup cfg input) (spec_first_order cfg input)
             d (spec_advance cfg input) (spec_custom_unit input))"
    and "subtotal r =
           Math_round (js_mul
             (spec_unit_price b (spec_startup cfg input) (spec_first_order cfg input)
                d (spec_advance cfg input) (spec_custom_unit input))
             (Num (quantity input)))"
    and "total r =
           spec_total
             (spec_unit_price b (spec_startup cfg input) (spec_first_order cfg input)
                d (spec_advance cfg input) (spec_custom_unit input))
             (quantity input)
             (spec_bulk_discount (quantity input) (spec_pair_rate cfg input))
             (spec_custom_line input)"
proof -
  note p = price_with_spec [OF assms(2,3)]
  have c: "calculatePrice src cached input = (price_with cfg input, cached')"
    by (rule calculatePrice_loaded [OF assms(1)])
  show ?thesis
    by (rule that [OF c [unfolded p]]) simp_all
qed

text \<open>The engine reproduces the figures of the tests.\<close>

lemmas price_eval =
  price_with_def resolve_base_def unit_before_qty_def or_default_def nullish_def
  js_get_def js_in_def object_prototype_names_def test_cfg_def order_def Let_def
  fl_numeral fl_neg_numeral fl_half_numeral

lemma calculatePrice_A:
  "calculatePrice missing_file (Some test_cfg) order_A = (Inr quote_A, Some test_cfg)"
  by (simp add: calculatePrice_def order_A_def quote_A_def price_eval)

lemma calculatePrice_B:
  "calculatePrice missing_file (Some test_cfg) order_B = (Inr quote_B, Some test_cfg)"
  by (simp add: calculatePrice_def order_B_def quote_B_def price_eval)

lemma scenario_C:
  "fst (calculatePrice missing_file (Some test_cfg) (order all_in_one None 1 D30 adv_none)) =
     Inr \<lparr>base = Num 900,
          adjustments = \<lparr>startup_discount = 25, first_order_discount = 150,
                          delivery_surcharge = Num 200, advance_payment_discount = 0,
                          two_pcs_line_discount_total = Num 0, custom_unit_adjust = 0,
                          custom_line_adjust = 0\<rparr>,
          unit = Num 925, subtotal = Num 925, total = Num 925\<rparr>"
  by (simp add: calculatePrice_def price_eval)

lemma scenario_D:
  "fst (calculatePrice missing_file (Some test_cfg)
         ((order dimensioned (Some ''200x100'') 2 D60 adv_none)
            \<lparr>advance_payment_discount_eur := Some 30, custom_unit_adjust_eur := Some 15,
             custom_line_adjust_eur := Some (- 20)\<rparr>)) =
     Inr \<lparr>base = Num 1170,
          adjustments = \<lparr>startup_discount = 25, first_order_discount = 50,
                          delivery_surcharge = Num 25, advance_payment_discount = 30,
                          two_pcs_line_discount_total = Num 25, custom_unit_adjust = 15,
                          custom_line_adjust = - 20\<rparr>,
          unit = Num 1105, subtotal = Num 2210, total = Num 2165\<rparr>"
  by (simp add: calculatePrice_def price_eval)

text \<open>
  The arithmetic rounds as binary64 does.  For the quantity 1.008641975308642 (the
  binary64 value \<open>4542519624150241 / 2 ^ 52\<close>) the product with the unit price 405 is
  408.49999999999994 exactly and rounds to 408.5, so subtotal and total are 409.
\<close>

lemma product_rounds_to_half:
  "js_mul (Num 405) (Num (4542519624150241 / 2 ^ 52)) = Num (817 / 2)"
proof -
  have "expo (1839720447780847605 / 4503599627370496) = 8"
    using expo_iff [of "1839720447780847605 / 4503599627370496" 8] by simp
  then show ?thesis
    by (simp add: fl_def quantum_def rne_def)
qed

lemma scenario_fractional_quantity:
  "fst (calculatePrice missing_file (Some test_cfg)
         (order table_only None (4542519624150241 / 2 ^ 52) D45 adv_50)) =
     Inr \<lparr>base = Num 430,
          adjustments = \<lparr>startup_discount = 25, first_order_discount = 50,
                          delivery_surcharge = Num 100, advance_payment_discount = 50,
                          two_pcs_line_discount_total = Num 0, custom_unit_adjust = 0,
                          custom_line_adjust = 0\<rparr>,
          unit = Num 405, subtotal = Num 409, total = Num 409\<rparr>"
proof -
  have m: "fl (1839720447780847605 / 4503599627370496) = Num (817 / 2)"
    using product_rounds_to_half by simp
  have u: "unit_before_qty (Num 430) 25 50 (Num 100) 50 0 = Num 405"
    by (simp add: unit_before_qty_def fl_numeral)
  have r: "round (817 / 2 :: real) = 409"
    by (simp add: round_def)
  show ?thesis
    by (simp add: calculatePrice_def price_with_def resolve_base_def or_default_def
          nullish_def js_get_def js_in_def object_prototype_names_def test_cfg_def
          order_def Let_def u m r fl_half_numeral)
qed

section \<open>The claims about the pricing computation\<close>

text \<open>
  Claim C3.  For an order whose base \<open>b\<close> and delivery surcharge \<open>d\<close> the rule set
  resolves, \<open>calculatePrice\<close> returns a breakdown that reports these components and
  whose \<open>unit\<close> is the rounding to the nearest integer of
  \<open>max(0, b - startup - firstOrder + d - advance) + customUnitAdjust\<close>, computed from
  left to right in the arithmetic of the language: the clamp at zero is applied once,
  before the custom per-unit adjustment is added.  On whole amounts of magnitude at most
  \<open>2 ^ 32\<close> that arithmetic is exact, and \<open>unit\<close> is the rounded real value of the formula.
\<close>

theorem calculatePrice_unit_formula:
  assumes "getPricingConfig src cached = (Inr cfg, cached')"
    and "spec_base cfg input = Some b"
    and "spec_delivery cfg input = Some d"
  shows "\<exists>r. calculatePrice src cached input = (Inr r, cached')
           \<and> base r = Num b
           \<and> startup_discount (adjustments r) = spec_startup cfg input
           \<and> first_order_discount (adjustments r) = spec_first_order cfg input
           \<and> delivery_surcharge (adjustments r) = Num d
           \<and> advance_payment_discount (adjustments r) = spec_advance cfg input
           \<and> custom_unit_adjust (adjustments r) = spec_custom_unit input
           \<and> unit r =
               Math_round
                 (js_add
                    (Math_max0
                       (js_sub
                          (js_add
                             (js_sub (js_sub (Num b) (Num (spec_startup cfg input)))
                                (Num (spec_first_order cfg input)))
                             (Num d))
                          (Num (spec_advance cfg input))))
                    (Num (spec_custom_unit input)))
           \<and> (whole_amount b \<and> whole_amount (spec_startup cfg input)
                \<and> whole_amount (spec_first_order cfg input) \<and> whole_amount d
                \<and> whole_amount (spec_advance cfg input)
                \<and> whole_amount (spec_custom_unit input) \<longrightarrow>
                unit r =
                  Num (of_int (round
                    (max 0 (b - spec_startup cfg input - spec_first_order cfg input + d
                              - spec_advance cfg input)
                     + spec_custom_unit input))))"
proof -
  from calculatePrice_spec [OF assms] obtain r
    where r: "calculatePrice src cached input = (Inr r, cached')"
      "base r = Num b"
      "startup_discount (adjustments r) = spec_startup cfg input"
      "first_order_discount (adjustments r) = spec_first_order cfg input"
      "delivery_surcharge (adjustments r) = Num d"
      "advance_payment_discount (adjustments r) = spec_advance cfg input"
      "custom_unit_adjust (adjustments r) = spec_custom_unit input"
    and u: "unit r =
      Math_round (spec_unit_price b (spec_startup cfg input) (spec_first_order cfg input)
        d (spec_advance cfg input) (spec_custom_unit input))"
    by blast
  have w: "unit r =
      Num (of_int (round
        (max 0 (b - spec_startup cfg input - spec_first_order cfg input + d
                  - spec_advance cfg input)
         + spec_custom_unit input)))"
    if "whole_amount b" "whole_amount (spec_startup cfg input)"
      "whole_amount (spec_first_order cfg input)" "whole_amount d"
      "whole_amount (spec_advance cfg input)" "whole_amount (spec_custom_unit input)"
    unfolding u spec_unit_price_whole(1) [OF that] by simp
  from r u [unfolded spec_unit_price_def] w show ?thesis
    by blast
qed

theorem calculatePrice_unit_formula_witness:
  "spec_base test_cfg order_A = Some 1170
   \<and> spec_delivery test_cfg order_A = Some 25
   \<and> calculatePrice missing_file (Some test_cfg) order_A = (Inr quote_A, Some test_cfg)
   \<and> unit quote_A = Num 1120"
proof -
  have sb: "spec_base test_cfg order_A = Some 1170"
    by (simp add: spec_base_def order_A_def order_def test_cfg_def)
  have sd: "spec_delivery test_cfg order_A = Some 25"
    by (simp add: spec_delivery_def order_A_def order_def test_cfg_def)
  have v: "spec_startup test_cfg order_A = 25" "spec_first_order test_cfg order_A = 50"
    "spec_advance test_cfg order_A = 0" "spec_custom_unit order_A = 0"
    by (simp_all add: spec_startup_def spec_first_order_def spec_advance_def
          spec_custom_unit_def order_A_def order_def test_cfg_def)
  have w: "whole_amount 1170" "whole_amount 25" "whole_amount 50" "whole_amount 0"
    by (simp_all add: whole_amount_def)
  from calculatePrice_unit_formula [OF getPricingConfig_cached sb sd]
  obtain r where r: "calculatePrice missing_file (Some test_cfg) order_A = (Inr r, Some test_cfg)"
    and e: "whole_amount 1170 \<and> whole_amount (spec_startup test_cfg order_A)
            \<and> whole_amount (spec_first_order test_cfg order_A) \<and> whole_amount 25
            \<and> whole_amount (spec_advance test_cfg order_A)
            \<and> whole_amount (spec_custom_unit order_A) \<longrightarrow>
            unit r =
              Num (of_int (round
                (max 0 (1170 - spec_startup test_cfg order_A
                          - spec_first_order test_cfg order_A + 25
                          - spec_advance test_cfg order_A)
                 + spec_custom_unit order_A)))"
    by blast
  from r calculatePrice_A have q: "r = quote_A"
    by simp
  from e w have "unit r = Num 1120"
    by (simp add: v)
  with q sb sd calculatePrice_A show ?thesis
    by simp
qed

text \<open>
  Claim C4.  With \<open>p\<close> the unrounded per-unit price of claim C3, the reported
  \<open>subtotal\<close> is \<open>round(p * quantity)\<close>, with no line-level adjustment in it, and
  \<open>total = max(0, round(p * quantity - bulkDiscount + customLineAdjust))\<close> is computed
  from the unrounded product, in the arithmetic of the language.  On whole amounts of
  magnitude at most \<open>2 ^ 32\<close> and a whole quantity that arithmetic is exact, and both are
  the real values of these formulas.
\<close>

theorem calculatePrice_total_formula:
  assumes "getPricingConfig src cached = (Inr cfg, cached')"
    and "spec_base cfg input = Some b"
    and "spec_delivery cfg input = Some d"
  shows "\<exists>r. calculatePrice src cached input = (Inr r, cached')
           \<and> two_pcs_line_discount_total (adjustments r) =
               spec_bulk_discount (quantity input) (spec_pair_rate cfg input)
           \<and> custom_line_adjust (adjustments r) = spec_custom_line input
           \<and> subtotal r =
               Math_round
                 (js_mul
                    (spec_unit_price b (spec_startup cfg input) (spec_first_order cfg input)
                       d (spec_advance cfg input) (spec_custom_unit input))
                    (Num (quantity input)))
           \<and> total r =
               Math_max0 (Math_round
                 (js_add
                    (js_sub
                       (js_mul
                          (spec_unit_price b (spec_startup cfg input)
                             (spec_first_order cfg input) d (spec_advance cfg input)
                             (spec_custom_unit input))
                          (Num (quantity input)))
                       (spec_bulk_discount (quantity input) (spec_pair_rate cfg input)))
                    (Num (spec_custom_line input))))
           \<and> (whole_amount b \<and> whole_amount (spec_startup cfg input)
                \<and> whole_amount (spec_first_order cfg input) \<and> whole_amount d
                \<and> whole_amount (spec_advance cfg input)
                \<and> whole_amount (spec_custom_unit input)
                \<and> whole_amount (spec_pair_rate cfg input)
                \<and> whole_amount (spec_custom_line input)
                \<and> quantity input \<in> \<int> \<and> 1 \<le> quantity input \<and> quantity input \<le> 500 \<longrightarrow>
                subtotal r =
                  Num (of_int (round
                    ((max 0 (b - spec_startup cfg input - spec_first_order cfg input + d
                               - spec_advance cfg input)
                      + spec_custom_unit input)
                     * quantity input)))
                \<and> total r =
                  Num (max 0 (of_int (round
                    ((max 0 (b - spec_startup cfg input - spec_first_order cfg input + d
                               - spec_advance cfg input)
                      + spec_custom_unit input)
                     * quantity input
                     - (if 2 \<le> quantity input
                        then of_int \<lfloor>quantity input / 2\<rfloor> * spec_pair_rate cfg input
                        else 0)
                     + spec_custom_line input)))))"
proof -
  let ?p = "max 0 (b - spec_startup cfg input - spec_first_order cfg input + d
                     - spec_advance cfg input)
            + spec_custom_unit input"
  let ?bulk = "if 2 \<le> quantity input
               then of_int \<lfloor>quantity input / 2\<rfloor> * spec_pair_rate cfg input else 0"
  from calculatePrice_spec [OF assms] obtain r
    where r: "calculatePrice src cached input = (Inr r, cached')"
      "two_pcs_line_discount_total (adjustments r) =
         spec_bulk_discount (quantity input) (spec_pair_rate cfg input)"
      "custom_line_adjust (adjustments r) = spec_custom_line input"
    and s: "subtotal r =
      Math_round (js_mul
        (spec_unit_price b (spec_startup cfg input) (spec_first_order cfg input)
           d (spec_advance cfg input) (spec_custom_unit input))
        (Num (quantity input)))"
    and t: "total r =
      spec_total
        (spec_unit_price b (spec_startup cfg input) (spec_first_order cfg input)
           d (spec_advance cfg input) (spec_custom_unit input))
        (quantity input)
        (spec_bulk_discount (quantity input) (spec_pair_rate cfg input))
        (spec_custom_line input)"
    by blast
  have w: "subtotal r = Num (of_int (round (?p * quantity input)))
           \<and> total r =
               Num (max 0 (of_int (round
                 (?p * quantity input - ?bulk + spec_custom_line input))))"
    if a: "whole_amount b" "whole_amount (spec_startup cfg input)"
      "whole_amount (spec_first_order cfg input)" "whole_amount d"
      "whole_amount (spec_advance cfg input)" "whole_amount (spec_custom_unit input)"
      and k: "whole_amount (spec_pair_rate cfg input)"
      and l: "whole_amount (spec_custom_line input)"
      and q: "quantity input \<in> \<int>" "1 \<le> quantity input" "quantity input \<le> 500"
  proof -
    note p = spec_unit_price_whole [OF a]
    have "\<bar>quantity input\<bar> < 2 ^ 53"
      using q(2,3) by simp
    with q(1) have qb: "quantity input \<in> binary64"
      by (rule Ints_binary64)
    note bk = spec_bulk_discount_whole [OF qb q(2,3) k]
    note tt = spec_total_whole [OF p(2,3) q bk(2,3) l]
    show ?thesis
      unfolding s t p(1) bk(1) tt by simp
  qed
  from r s t [unfolded spec_total_def] w show ?thesis
    by blast
qed

theorem calculatePrice_total_formula_witness:
  "spec_base test_cfg order_B = Some 430
   \<and> spec_delivery test_cfg order_B = Some 100
   \<and> calculatePrice missing_file (Some test_cfg) order_B = (Inr quote_B, Some test_cfg)
   \<and> subtotal quote_B = Num 810
   \<and> total quote_B = Num 785"
proof -
  have sb: "spec_base test_cfg order_B = Some 430"
    by (simp add: spec_base_def order_B_def order_def test_cfg_def)
  have sd: "spec_delivery test_cfg order_B = Some 100"
    by (simp add: spec_delivery_def order_B_def order_def test_cfg_def)
  have v: "spec_startup test_cfg order_B = 25" "spec_first_order test_cfg order_B = 50"
    "spec_advance test_cfg order_B = 50" "spec_custom_unit order_B = 0"
    "spec_pair_rate test_cfg order_B = 25" "spec_custom_line order_B = 0"
    "quantity order_B = 2"
    by (simp_all add: spec_startup_def spec_first_order_def spec_advance_def
          spec_custom_unit_def spec_pair_rate_def spec_custom_line_def
          order_B_def order_def test_cfg_def)
  have w: "whole_amount 430" "whole_amount 25" "whole_amount 50" "whole_amount 100"
    "whole_amount 0"
    by (simp_all add: whole_amount_def)
  from calculatePrice_total_formula [OF getPricingConfig_cached sb sd]
  obtain r where r: "calculatePrice missing_file (Some test_cfg) order_B = (Inr r, Some test_cfg)"
    and e: "whole_amount 430 \<and> whole_amount (spec_startup test_cfg order_B)
            \<and> whole_amount (spec_first_order test_cfg order_B) \<and> whole_amount 100
            \<and> whole_amount (spec_advance test_cfg order_B)
            \<and> whole_amount (spec_custom_unit order_B)
            \<and> whole_amount (spec_pair_rate test_cfg order_B)
            \<and> whole_amount (spec_custom_line order_B)
            \<and> quantity order_B \<in> \<int> \<and> 1 \<le> quantity order_B \<and> quantity order_B \<le> 500 \<longrightarrow>
            subtotal r =
              Num (of_int (round
                ((max 0 (430 - spec_startup test_cfg order_B
                           - spec_first_order test_cfg order_B + 100
                           - spec_advance test_cfg order_B)
                  + spec_custom_unit order_B)
                 * quantity order_B)))
            \<and> total r =
              Num (max 0 (of_int (round
                ((max 0 (430 - spec_startup test_cfg order_B
                           - spec_first_order test_cfg order_B + 100
                           - spec_advance test_cfg order_B)
                  + spec_custom_unit order_B)
                 * quantity order_B
                 - (if 2 \<le> quantity order_B
                    then of_int \<lfloor>quantity order_B / 2\<rfloor> * spec_pair_rate test_cfg order_B
                    else 0)
                 + spec_custom_line order_B))))"
    by blast
  from r calculatePrice_B have q: "r = quote_B"
    by simp
  from e w have "subtotal r = Num 810 \<and> total r = Num 785"
    by (simp add: v)
  with q sb sd calculatePrice_B show ?thesis
    by simp
qed



text \<open>
  Claim C1, as amended.  \<open>total\<close> is never negative: it is a number that is not
  negative, \<open>+Infinity\<close> or \<open>NaN\<close>; so is \<open>unit\<close> provided \<open>custom_unit_adjust_eur\<close> is
  absent or not negative.  When the rule set resolves the base and the delivery
  surcharge and every amount is of magnitude at most \<open>2 ^ 32\<close>, \<open>calculatePrice\<close> returns
  a breakdown whose \<open>total\<close> and \<open>unit\<close> are numbers, \<open>total \<ge> 0\<close>, and \<open>unit \<ge> 0\<close>
  provided \<open>custom_unit_adjust_eur\<close> is absent or not negative.  The custom per-unit
  adjustment is added after the clamp at zero, so a negative one can make \<open>unit\<close>
  negative.
\<close>

theorem calculatePrice_nonnegative:
  assumes "getPricingConfig src cached = (Inr cfg, cached')"
  shows "(calculatePrice src cached input = (Inr r, cached'') \<longrightarrow>
            (total r = NaN \<or> total r = PosInf \<or> (\<exists>t. total r = Num t \<and> 0 \<le> t))
            \<and> (0 \<le> spec_custom_unit input \<longrightarrow>
                 unit r = NaN \<or> unit r = PosInf \<or> (\<exists>u. unit r = Num u \<and> 0 \<le> u)))
         \<and> (spec_base cfg input = Some b \<and> spec_delivery cfg input = Some d
              \<and> \<bar>b\<bar> \<le> 2 ^ 32 \<and> \<bar>spec_startup cfg input\<bar> \<le> 2 ^ 32
              \<and> \<bar>spec_first_order cfg input\<bar> \<le> 2 ^ 32 \<and> \<bar>d\<bar> \<le> 2 ^ 32
              \<and> \<bar>spec_advance cfg input\<bar> \<le> 2 ^ 32
              \<and> \<bar>spec_custom_unit input\<bar> \<le> 2 ^ 32
              \<and> \<bar>spec_pair_rate cfg input\<bar> \<le> 2 ^ 32
              \<and> \<bar>spec_custom_line input\<bar> \<le> 2 ^ 32
              \<and> quantity_in_range input \<longrightarrow>
            (\<exists>r' t u. calculatePrice src cached input = (Inr r', cached')
                \<and> total r' = Num t \<and> 0 \<le> t \<and> unit r' = Num u
                \<and> (0 \<le> spec_custom_unit input \<longrightarrow> 0 \<le> u)))"
proof -
  have general:
    "(total r = NaN \<or> total r = PosInf \<or> (\<exists>t. total r = Num t \<and> 0 \<le> t))
     \<and> (0 \<le> spec_custom_unit input \<longrightarrow>
          unit r = NaN \<or> unit r = PosInf \<or> (\<exists>u. unit r = Num u \<and> 0 \<le> u))"
    if c: "calculatePrice src cached input = (Inr r, cached'')"
  proof -
    from c obtain cfg' where p: "price_with cfg' input = Inr r"
      using calculatePrice_Inr by blast
    have t: "total r = NaN \<or> total r = PosInf \<or> (\<exists>t. total r = Num t \<and> 0 \<le> t)"
      unfolding price_with_result(6) [OF p] spec_total_def
      by (rule Math_max0_cases)
    have u: "unit r = NaN \<or> unit r = PosInf \<or> (\<exists>u. unit r = Num u \<and> 0 \<le> u)"
      if "0 \<le> spec_custom_unit input"
      unfolding price_with_result(5) [OF p] unit_before_qty_def
        price_with_result(3) [OF p]
      by (rule unit_never_negative [OF that])
    from t u show ?thesis
      by blast
  qed
  have bounded:
    "\<exists>r' t u. calculatePrice src cached input = (Inr r', cached')
        \<and> total r' = Num t \<and> 0 \<le> t \<and> unit r' = Num u
        \<and> (0 \<le> spec_custom_unit input \<longrightarrow> 0 \<le> u)"
    if sb: "spec_base cfg input = Some b" and sd: "spec_delivery cfg input = Some d"
      and a: "\<bar>b\<bar> \<le> 2 ^ 32" "\<bar>spec_startup cfg input\<bar> \<le> 2 ^ 32"
        "\<bar>spec_first_order cfg input\<bar> \<le> 2 ^ 32" "\<bar>d\<bar> \<le> 2 ^ 32"
        "\<bar>spec_advance cfg input\<bar> \<le> 2 ^ 32" "\<bar>spec_custom_unit input\<bar> \<le> 2 ^ 32"
      and k: "\<bar>spec_pair_rate cfg input\<bar> \<le> 2 ^ 32"
      and l: "\<bar>spec_custom_line input\<bar> \<le> 2 ^ 32"
      and q: "quantity_in_range input"
  proof -
    from calculatePrice_spec [OF assms sb sd] obtain r'
      where r: "calculatePrice src cached input = (Inr r', cached')"
      and u: "unit r' =
        Math_round (spec_unit_price b (spec_startup cfg input) (spec_first_order cfg input)
          d (spec_advance cfg input) (spec_custom_unit input))"
      and t: "total r' =
        spec_total
          (spec_unit_price b (spec_startup cfg input) (spec_first_order cfg input)
             d (spec_advance cfg input) (spec_custom_unit input))
          (quantity input)
          (spec_bulk_discount (quantity input) (spec_pair_rate cfg input))
          (spec_custom_line input)"
      by blast
    from spec_unit_price_bounded [OF a] obtain p
      where p: "spec_unit_price b (spec_startup cfg input) (spec_first_order cfg input)
                  d (spec_advance cfg input) (spec_custom_unit input) = Num p"
        and pb: "\<bar>p\<bar> \<le> 403726925824"
        and pn: "0 \<le> spec_custom_unit input \<longrightarrow> 0 \<le> p"
      by blast
    from q have q': "1 \<le> quantity input" "quantity input \<le> 500"
      by (simp_all add: quantity_in_range_def)
    from spec_total_bounded [OF pb q' k l] obtain v
      where v: "spec_total (Num p) (quantity input)
                  (spec_bulk_discount (quantity input) (spec_pair_rate cfg input))
                  (spec_custom_line input) = Num v"
        and vn: "0 \<le> v"
      by blast
    have un: "0 \<le> real_of_int (round p)" if "0 \<le> spec_custom_unit input"
    proof -
      from that pn have "0 \<le> p" by simp
      then have "round (0::real) \<le> round p" by (rule round_mono)
      then show ?thesis by simp
    qed
    have "total r' = Num v"
      unfolding t p v ..
    moreover have "unit r' = Num (of_int (round p))"
      unfolding u p by simp
    ultimately show ?thesis
      using r vn un by blast
  qed
  from general bounded show ?thesis
    by blast
qed

theorem calculatePrice_nonnegative_witness:
  "getPricingConfig missing_file (Some test_cfg) = (Inr test_cfg, Some test_cfg)
   \<and> calculatePrice missing_file (Some test_cfg) order_A = (Inr quote_A, Some test_cfg)
   \<and> spec_base test_cfg order_A = Some 1170
   \<and> spec_delivery test_cfg order_A = Some 25
   \<and> quantity_in_range order_A
   \<and> (0::real) \<le> spec_custom_unit order_A
   \<and> (\<exists>t. total quote_A = Num t \<and> 0 \<le> t)
   \<and> (\<exists>u. unit quote_A = Num u \<and> 0 \<le> u)"
proof -
  have sb: "spec_base test_cfg order_A = Some 1170"
    by (simp add: spec_base_def order_A_def order_def test_cfg_def)
  have sd: "spec_delivery test_cfg order_A = Some 25"
    by (simp add: spec_delivery_def order_A_def order_def test_cfg_def)
  have v: "spec_startup test_cfg order_A = 25" "spec_first_order test_cfg order_A = 50"
    "spec_advance test_cfg order_A = 0" "spec_custom_unit order_A = 0"
    "spec_pair_rate test_cfg order_A = 25" "spec_custom_line order_A = 0"
    by (simp_all add: spec_startup_def spec_first_order_def spec_advance_def
          spec_custom_unit_def spec_pair_rate_def spec_custom_line_def
          order_A_def order_def test_cfg_def)
  have q: "quantity_in_range order_A"
    by (simp add: quantity_in_range_def order_A_def order_def)
  have h: "spec_base test_cfg order_A = Some 1170 \<and> spec_delivery test_cfg order_A = Some 25
      \<and> \<bar>1170::real\<bar> \<le> 2 ^ 32 \<and> \<bar>spec_startup test_cfg order_A\<bar> \<le> 2 ^ 32
      \<and> \<bar>spec_first_order test_cfg order_A\<bar> \<le> 2 ^ 32 \<and> \<bar>25::real\<bar> \<le> 2 ^ 32
      \<and> \<bar>spec_advance test_cfg order_A\<bar> \<le> 2 ^ 32
      \<and> \<bar>spec_custom_unit order_A\<bar> \<le> 2 ^ 32
      \<and> \<bar>spec_pair_rate test_cfg order_A\<bar> \<le> 2 ^ 32
      \<and> \<bar>spec_custom_line order_A\<bar> \<le> 2 ^ 32
      \<and> quantity_in_range order_A"
    using sb sd q by (simp add: v)
  from calculatePrice_nonnegative
         [where src = missing_file and cfg = test_cfg and input = order_A
            and b = 1170 and d = 25,
          OF getPricingConfig_cached] h
  obtain r' t u where r: "calculatePrice missing_file (Some test_cfg) order_A = (Inr r', Some test_cfg)"
    and t: "total r' = Num t" "0 \<le> t"
    and u: "unit r' = Num u" "0 \<le> spec_custom_unit order_A \<longrightarrow> 0 \<le> u"
    by blast
  from r calculatePrice_A have e: "r' = quote_A"
    by simp
  have n: "(0::real) \<le> spec_custom_unit order_A"
    by (simp add: v)
  from t u n have "(\<exists>t. total quote_A = Num t \<and> 0 \<le> t) \<and> (\<exists>u. unit quote_A = Num u \<and> 0 \<le> u)"
    unfolding e by blast
  with calculatePrice_A sb sd q n show ?thesis
    by simp
qed

text \<open>
  Claim C1 as stated fails: with \<open>custom_unit_adjust_eur = -2000\<close> on scenario A the
  clamped price 1120 becomes \<open>unit = -880\<close> (the total is clamped to 0).
\<close>

theorem calculatePrice_unit_negative:
  "quantity_in_range
     ((order dimensioned (Some ''200x100'') 1 D60 adv_none)
        \<lparr>custom_unit_adjust_eur := Some (- 2000)\<rparr>)
   \<and> calculatePrice missing_file (Some test_cfg)
       ((order dimensioned (Some ''200x100'') 1 D60 adv_none)
          \<lparr>custom_unit_adjust_eur := Some (- 2000)\<rparr>) =
     (Inr \<lparr>base = Num 1170,
           adjustments = \<lparr>startup_discount = 25, first_order_discount = 50,
                           delivery_surcharge = Num 25, advance_payment_discount = 0,
                           two_pcs_line_discount_total = Num 0, custom_unit_adjust = - 2000,
                           custom_line_adjust = 0\<rparr>,
           unit = Num (- 880), subtotal = Num (- 880), total = Num 0\<rparr>,
      Some test_cfg)"
  by (simp add: calculatePrice_def quantity_in_range_def price_eval)

text \<open>
  Claim C6, as amended.  With no \<open>base_override_eur\<close>, a dimensioned order whose
  dimension is absent, or is neither a key of \<open>dimensionBaseEUR\<close> nor a property name
  inherited from \<open>Object.prototype\<close>, always fails with the error "Missing or invalid
  'dimension'."; no base price is defaulted.  With \<open>base_override_eur\<close> present the
  override wins: whatever the product type and the dimension, the order is priced and
  its base is the override.
\<close>

theorem calculatePrice_unknown_dimension:
  assumes "getPricingConfig src cached = (Inr cfg, cached')"
  shows "(product_type input = dimensioned \<and> base_override_eur input = None
            \<and> (dimension input = None
                 \<or> (\<exists>d. dimension input = Some d \<and> dimensionBaseEUR cfg d = None
                         \<and> d \<notin> set object_prototype_names)) \<longrightarrow>
            calculatePrice src cached input = (Inl MissingOrInvalidDimension, cached'))
         \<and> (base_override_eur input = Some b \<longrightarrow>
              (\<exists>r. calculatePrice src cached input = (Inr r, cached') \<and> base r = Num b))"
proof -
  have 1: "calculatePrice src cached input = (Inl MissingOrInvalidDimension, cached')"
    if "product_type input = dimensioned" "base_override_eur input = None"
      "dimension input = None
       \<or> (\<exists>d. dimension input = Some d \<and> dimensionBaseEUR cfg d = None
               \<and> d \<notin> set object_prototype_names)"
  proof -
    from that have "resolve_base cfg input = Inl MissingOrInvalidDimension"
      by (auto simp: resolve_base_def js_in_def dom_def)
    then have "price_with cfg input = Inl MissingOrInvalidDimension"
      by (simp add: price_with_def)
    with assms show ?thesis
      by (simp add: calculatePrice_def)
  qed
  have 2: "\<exists>r. calculatePrice src cached input = (Inr r, cached') \<and> base r = Num b"
    if "base_override_eur input = Some b"
  proof -
    from that have "resolve_base cfg input = Inr (Num b)"
      by (simp add: resolve_base_def)
    then have "\<exists>r. price_with cfg input = Inr r \<and> base r = Num b"
      unfolding price_with_def Let_def by simp
    with assms show ?thesis
      by (simp add: calculatePrice_def)
  qed
  from 1 2 show ?thesis
    by blast
qed

theorem calculatePrice_unknown_dimension_witness:
  "getPricingConfig missing_file (Some test_cfg) = (Inr test_cfg, Some test_cfg)
   \<and> product_type (order dimensioned (Some ''300x300'') 1 D60 adv_none) = dimensioned
   \<and> base_override_eur (order dimensioned (Some ''300x300'') 1 D60 adv_none) = None
   \<and> dimension (order dimensioned (Some ''300x300'') 1 D60 adv_none) = Some ''300x300''
   \<and> dimensionBaseEUR test_cfg ''300x300'' = None
   \<and> ''300x300'' \<notin> set object_prototype_names
   \<and> calculatePrice missing_file (Some test_cfg)
        (order dimensioned (Some ''300x300'') 1 D60 adv_none) =
       (Inl MissingOrInvalidDimension, Some test_cfg)
   \<and> base_override_eur
        ((order dimensioned (Some ''300x300'') 1 D60 adv_none)\<lparr>base_override_eur := Some 100\<rparr>)
       = Some 100
   \<and> (\<exists>r. calculatePrice missing_file (Some test_cfg)
             ((order dimensioned (Some ''300x300'') 1 D60 adv_none)
                \<lparr>base_override_eur := Some 100\<rparr>) = (Inr r, Some test_cfg)
          \<and> base r = Num 100)"
proof -
  let ?o = "order dimensioned (Some ''300x300'') 1 D60 adv_none"
  have f: "product_type ?o = dimensioned" "base_override_eur ?o = None"
    "dimension ?o = Some ''300x300''"
    by (simp_all add: order_def)
  have k: "dimensionBaseEUR test_cfg ''300x300'' = None"
    by (simp add: test_cfg_def)
  have n: "''300x300'' \<notin> set object_prototype_names"
    by (simp add: object_prototype_names_def)
  have g: "base_override_eur (?o\<lparr>base_override_eur := Some 100\<rparr>) = Some 100"
    by simp
  from calculatePrice_unknown_dimension
         [where src = missing_file and cfg = test_cfg and input = ?o,
          OF getPricingConfig_cached]
    f k n
  have 1: "calculatePrice missing_file (Some test_cfg) ?o =
      (Inl MissingOrInvalidDimension, Some test_cfg)"
    by blast
  from calculatePrice_unknown_dimension
         [where src = missing_file and cfg = test_cfg
            and input = "?o\<lparr>base_override_eur := Some 100\<rparr>" and b = 100,
          OF getPricingConfig_cached] g
  have 2: "\<exists>r. calculatePrice missing_file (Some test_cfg) (?o\<lparr>base_override_eur := Some 100\<rparr>)
             = (Inr r, Some test_cfg) \<and> base r = Num 100"
    by blast
  from f k n g 1 2 show ?thesis
    by (simp only: getPricingConfig_cached simp_thms)
qed

text \<open>
  Claim C6 as stated fails: a dimensioned order without a dimension that carries
  \<open>base_override_eur = 100\<close> is priced from the override; no error is raised.
\<close>

theorem calculatePrice_override_skips_dimension:
  "calculatePrice missing_file (Some test_cfg)
     ((order dimensioned None 1 D60 adv_none)\<lparr>base_override_eur := Some 100\<rparr>) =
   (Inr \<lparr>base = Num 100,
         adjustments = \<lparr>startup_discount = 25, first_order_discount = 50,
                         delivery_surcharge = Num 25, advance_payment_discount = 0,
                         two_pcs_line_discount_total = Num 0, custom_unit_adjust = 0,
                         custom_line_adjust = 0\<rparr>,
         unit = Num 50, subtotal = Num 50, total = Num 50\<rparr>,
    Some test_cfg)"
  by (simp add: calculatePrice_def price_eval)

text \<open>
  Claim C10 fails on the code.  The dimension \<open>"constructor"\<close> is not a key of
  \<open>dimensionBaseEUR\<close>, yet the \<open>in\<close> test finds it on \<open>Object.prototype\<close>: no error is
  raised, the base is the inherited function, and \<open>unit\<close>, \<open>subtotal\<close> and \<open>total\<close> are
  \<open>NaN\<close>, although every delivery tier is present in the rule set.
\<close>

theorem calculatePrice_inherited_dimension_NaN:
  "dimensionBaseEUR test_cfg ''constructor'' = None
   \<and> quantity_in_range (order dimensioned (Some ''constructor'') 1 D7 adv_none)
   \<and> calculatePrice missing_file (Some test_cfg)
       (order dimensioned (Some ''constructor'') 1 D7 adv_none) =
     (Inr \<lparr>base = Inherited,
           adjustments = \<lparr>startup_discount = 25, first_order_discount = 50,
                           delivery_surcharge = Num 300, advance_payment_discount = 0,
                           two_pcs_line_discount_total = Num 0, custom_unit_adjust = 0,
                           custom_line_adjust = 0\<rparr>,
           unit = NaN, subtotal = NaN, total = NaN\<rparr>,
      Some test_cfg)"
  by (simp add: calculatePrice_def quantity_in_range_def price_eval)

section \<open>The claims about override authorization and input validation\<close>

text \<open>
  Claim C2.  For each of the eight override fields, \<open>sanitizeOverrides(input, false)\<close>
  has no property of that name, and \<open>sanitizeOverrides(input, true)\<close> is the input
  itself, every override field as supplied.
\<close>

theorem sanitizeOverrides_gating:
  assumes "f \<in> {''base_override_eur'', ''startup_discount_eur'', ''first_order_discount_eur'',
                ''delivery_surcharge_override'', ''two_pcs_line_discount_eur'',
                ''advance_payment_discount_eur'', ''custom_unit_adjust_eur'',
                ''custom_line_adjust_eur''}"
  shows "f \<notin> fst ` set (sanitizeOverrides input False)
         \<and> sanitizeOverrides input True = input"
proof -
  from assms have "f \<in> set override_fields"
    by (simp add: override_fields_def)
  then have "f \<notin> fst ` set (sanitizeOverrides input False)"
    by (auto simp: sanitizeOverrides_def)
  then show ?thesis
    by (simp add: sanitizeOverrides_def)
qed

theorem sanitizeOverrides_gating_witness:
  "''custom_unit_adjust_eur'' \<notin>
     fst ` set (sanitizeOverrides
                  [(''quantity'', JNum 2), (''custom_unit_adjust_eur'', JNum (- 5))] False)
   \<and> sanitizeOverrides [(''quantity'', JNum 2), (''custom_unit_adjust_eur'', JNum (- 5))] True
       = [(''quantity'', JNum 2), (''custom_unit_adjust_eur'', JNum (- 5))]"
  using sanitizeOverrides_gating
          [of "''custom_unit_adjust_eur''"
              "[(''quantity'', JNum 2), (''custom_unit_adjust_eur'', JNum (- 5))]"]
  by simp

text \<open>Parsing looks at the declared keys only, and its output has declared keys only.\<close>

lemma parse_shape_cong:
  assumes "\<And>k. k \<in> fst ` set shape \<Longrightarrow> map_of raw k = map_of raw' k"
  shows "parse_shape shape raw = parse_shape shape raw'"
  using assms
proof (induction shape)
  case Nil
  show ?case by simp
next
  case (Cons a shape)
  obtain k s where a: "a = (k, s)"
    by (cases a)
  have e1: "map_of raw k = map_of raw' k"
    using Cons.prems [of k] by (simp add: a)
  have e2: "parse_shape shape raw = parse_shape shape raw'"
    by (rule Cons.IH) (simp add: Cons.prems)
  show ?case
    unfolding a parse_shape.simps e1 e2 ..
qed

lemma parse_shape_keys:
  "fst ` set (snd (parse_shape shape raw)) \<subseteq> fst ` set shape"
proof (induction shape)
  case Nil
  show ?case by simp
next
  case (Cons a shape)
  obtain k s where a: "a = (k, s)"
    by (cases a)
  have ih: "fst x \<in> fst ` set shape" if "x \<in> set (snd (parse_shape shape raw))" for x
    using Cons.IH that by blast
  show ?case
  proof
    fix y
    assume "y \<in> fst ` set (snd (parse_shape (a # shape) raw))"
    then obtain x where x: "x \<in> set (snd (parse_shape (a # shape) raw))" and y: "y = fst x"
      by blast
    from x have "x \<in> set (snd (parse_shape shape raw)) \<or> fst x = k"
      by (auto simp: a split: sum.splits option.splits)
    then show "y \<in> fst ` set (a # shape)"
    proof
      assume "x \<in> set (snd (parse_shape shape raw))"
      then have "fst x \<in> fst ` set shape"
        by (rule ih)
      then show ?thesis
        by (simp add: y)
    next
      assume "fst x = k"
      then show ?thesis
        by (simp add: a y)
    qed
  qed
qed

lemma map_of_filter_keys:
  "k \<in> K \<Longrightarrow> map_of (filter (\<lambda>(k', v). k' \<in> K) raw) k = map_of raw k"
  by (induction raw) auto

lemma safeParse_keys:
  assumes "PriceInputSchema_safeParse body = Inr data"
  shows "fst ` set data \<subseteq> set PriceInputSchema_fields"
proof -
  from assms obtain raw where "parse_shape PriceInputSchema_shape raw = ([], data)"
    by (auto simp: PriceInputSchema_safeParse_def split: json.splits prod.splits list.splits)
  then have "data = snd (parse_shape PriceInputSchema_shape raw)"
    by simp
  then show ?thesis
    using parse_shape_keys [of PriceInputSchema_shape raw]
    by (simp add: PriceInputSchema_fields_def)
qed

text \<open>
  Claim C7.  \<open>sanitizeOverrides\<close> receives the object that \<open>PriceInputSchema.safeParse\<close>
  returns for the raw input.  A field of the raw input that the schema does not declare
  is dropped silently on that way: the outcome for a raw input is the outcome for the
  same input without its undeclared fields, so such a field never makes the input
  rejected; and for every accepted input the output of \<open>sanitizeOverrides(input, false)\<close>
  has declared fields only, none of them an override field.
\<close>

theorem price_payload_drops_unknown_fields:
  "price_payload (JObj raw) False =
     price_payload (JObj (filter (\<lambda>(k, v). k \<in> set PriceInputSchema_fields) raw)) False
   \<and> (PriceInputSchema_safeParse body = Inr data \<longrightarrow>
        price_payload body False = Inr (sanitizeOverrides data False)
        \<and> (\<forall>k \<in> fst ` set (sanitizeOverrides data False).
              k \<in> set PriceInputSchema_fields \<and> k \<notin> set override_fields))"
proof -
  have "parse_shape PriceInputSchema_shape raw =
      parse_shape PriceInputSchema_shape
        (filter (\<lambda>(k, v). k \<in> set PriceInputSchema_fields) raw)"
    by (rule parse_shape_cong)
       (simp add: PriceInputSchema_fields_def map_of_filter_keys)
  then have 1: "price_payload (JObj raw) False =
      price_payload (JObj (filter (\<lambda>(k, v). k \<in> set PriceInputSchema_fields) raw)) False"
    by (simp add: price_payload_def PriceInputSchema_safeParse_def)
  have 2: "price_payload body False = Inr (sanitizeOverrides data False)
      \<and> (\<forall>k \<in> fst ` set (sanitizeOverrides data False).
            k \<in> set PriceInputSchema_fields \<and> k \<notin> set override_fields)"
    if p: "PriceInputSchema_safeParse body = Inr data"
  proof -
    have "fst ` set (sanitizeOverrides data False) \<subseteq> fst ` set data"
      by (auto simp: sanitizeOverrides_def)
    with safeParse_keys [OF p]
    have "\<forall>k \<in> fst ` set (sanitizeOverrides data False). k \<in> set PriceInputSchema_fields"
      by blast
    moreover have "\<forall>k \<in> fst ` set (sanitizeOverrides data False). k \<notin> set override_fields"
      by (auto simp: sanitizeOverrides_def)
    ultimately show ?thesis
      using p by (simp add: price_payload_def)
  qed
  from 1 2 show ?thesis
    by blast
qed

theorem price_payload_drops_unknown_fields_witness:
  "PriceInputSchema_safeParse
     (JObj [(''product_type'', JStr ''table_only''), (''delivery_days'', JNum 45),
            (''coupon'', JStr ''FREE''), (''base_override_eur'', JNum 1)]) =
   Inr [(''product_type'', JStr ''table_only''), (''quantity'', JNum 1),
        (''delivery_days'', JNum 45), (''base_override_eur'', JNum 1),
        (''advance_payment'', JStr ''none'')]
   \<and> price_payload
       (JObj [(''product_type'', JStr ''table_only''), (''delivery_days'', JNum 45),
              (''coupon'', JStr ''FREE''), (''base_override_eur'', JNum 1)]) False =
     Inr [(''product_type'', JStr ''table_only''), (''quantity'', JNum 1),
          (''delivery_days'', JNum 45), (''advance_payment'', JStr ''none'')]
   \<and> price_payload
       (JObj [(''product_type'', JStr ''table_only''), (''delivery_days'', JNum 45),
              (''coupon'', JStr ''FREE''), (''base_override_eur'', JNum 1)]) False =
     price_payload
       (JObj [(''product_type'', JStr ''table_only''), (''delivery_days'', JNum 45),
              (''base_override_eur'', JNum 1)]) False"
proof -
  let ?raw = "[(''product_type'', JStr ''table_only''), (''delivery_days'', JNum 45),
               (''coupon'', JStr ''FREE''), (''base_override_eur'', JNum 1)]"
  let ?data = "[(''product_type'', JStr ''table_only''), (''quantity'', JNum 1),
                (''delivery_days'', JNum 45), (''base_override_eur'', JNum 1),
                (''advance_payment'', JStr ''none'')]"
  have p: "PriceInputSchema_safeParse (JObj ?raw) = Inr ?data"
    by (simp add: PriceInputSchema_safeParse_def PriceInputSchema_shape_def z_enum_def
          z_optional_def z_string_def z_number_def z_record_number_def z_delivery_days_def
          z_default_def quantity_schema_def)
  have s: "sanitizeOverrides ?data False =
      [(''product_type'', JStr ''table_only''), (''quantity'', JNum 1),
       (''delivery_days'', JNum 45), (''advance_payment'', JStr ''none'')]"
    by (simp add: sanitizeOverrides_def override_fields_def)
  have f: "filter (\<lambda>(k, v). k \<in> set PriceInputSchema_fields) ?raw =
      [(''product_type'', JStr ''table_only''), (''delivery_days'', JNum 45),
       (''base_override_eur'', JNum 1)]"
    by (simp add: PriceInputSchema_fields_def PriceInputSchema_shape_def)
  from price_payload_drops_unknown_fields [of ?raw "JObj ?raw" ?data] p
  have "price_payload (JObj ?raw) False =
          price_payload (JObj (filter (\<lambda>(k, v). k \<in> set PriceInputSchema_fields) ?raw)) False"
    and "price_payload (JObj ?raw) False = Inr (sanitizeOverrides ?data False)"
    by blast+
  then show ?thesis
    unfolding f s using p by simp
qed

text \<open>
  Claim C8, as amended.  The schema accepts a supplied quantity if and only if it is a
  number between 1 and 500 inclusive, integer or not, and passes it on unchanged; a value
  below 1 or above 500 and a value that is not a number are rejected.  An absent quantity
  is accepted as the default 1.
\<close>

theorem quantity_schema_accepts:
  "(quantity_schema (Some v) = Inr q \<longleftrightarrow> v = JNum q \<and> 1 \<le> q \<and> q \<le> 500)
   \<and> quantity_schema None = Inr 1"
  by (cases v) (auto simp: quantity_schema_def)

theorem quantity_schema_accepts_witness:
  "quantity_schema (Some (JNum 500)) = Inr 500
   \<and> quantity_schema (Some (JNum 501)) \<noteq> Inr 501
   \<and> quantity_schema (Some (JStr ''2'')) \<noteq> Inr 2
   \<and> quantity_schema None = Inr 1"
  using quantity_schema_accepts [of "JNum 500" 500]
    quantity_schema_accepts [of "JNum 501" 501]
    quantity_schema_accepts [of "JStr ''2''" 2]
  by simp

text \<open>
  Claim C8 as stated fails: the quantity 1.5 is not an integer and the schema accepts it.
\<close>

theorem quantity_schema_accepts_fraction:
  "(3 / 2 :: real) \<notin> \<int> \<and> quantity_schema (Some (JNum (3 / 2))) = Inr (3 / 2)"
  by (simp add: quantity_schema_def)


section \<open>The claim about the rule set loader\<close>

text \<open>
  Claim C9, as amended.  A load that fails raises an error.  A failing
  \<open>getPricingConfig\<close> leaves the cache as it was: it fails only when nothing is cached,
  and nothing is cached afterwards.  A failing \<open>reloadPricingConfig\<close> leaves the cache
  empty, whatever was cached before, and a later \<open>getPricingConfig\<close> reads the source
  again: on the same source it fails with the same error.
\<close>

theorem failed_load_cache:
  "(getPricingConfig src cached = (Inl e, cached') \<longrightarrow> cached = None \<and> cached' = None)
   \<and> (reloadPricingConfig src cached = (Inl e, cached') \<longrightarrow>
        cached' = None \<and> getPricingConfig src cached' = (Inl e, None))"
  by (auto simp: getPricingConfig_def reloadPricingConfig_def split: option.splits)

theorem failed_load_cache_witness:
  "getPricingConfig missing_file None = (Inl ReadFailed, None)
   \<and> reloadPricingConfig missing_file (Some test_cfg) = (Inl ReadFailed, None)
   \<and> getPricingConfig missing_file None = (Inl ReadFailed, None)"
proof -
  have g: "getPricingConfig missing_file None = (Inl ReadFailed, None)"
    by (simp add: getPricingConfig_def missing_file_def)
  have r: "reloadPricingConfig missing_file (Some test_cfg) = (Inl ReadFailed, None)"
    by (simp add: reloadPricingConfig_def g)
  from failed_load_cache [of missing_file None ReadFailed None]
       failed_load_cache [of missing_file "Some test_cfg" ReadFailed None] g r
  show ?thesis
    by blast
qed

text \<open>
  Claim C9 as stated fails: with a rule set cached and the file missing,
  \<open>reloadPricingConfig\<close> throws and leaves the cache empty, and the next
  \<open>getPricingConfig\<close> throws too, where the claim has it return the cached rule set.
\<close>

theorem failed_reload_clears_cache:
  "reloadPricingConfig missing_file (Some test_cfg) = (Inl ReadFailed, None)
   \<and> getPricingConfig missing_file (snd (reloadPricingConfig missing_file (Some test_cfg)))
       = (Inl ReadFailed, None)"
  by (simp add: reloadPricingConfig_def getPricingConfig_def missing_file_def)

end
